theory Spec2Isabelle
  imports Main "HOL-Library.Word" "HOL-Library.Signed_Division"
begin

unbundle bit_operations_syntax

section \<open>Machine types and byte order\<close>

text \<open>
  The target is a 32-bit little-endian ARM microcontroller: \<open>uint8_t\<close>, \<open>uint16_t\<close>,
  \<open>uint32_t\<close> and \<open>unsigned int\<close> are words of 8, 16, 32 and 32 bits; \<open>int32_t\<close>
  (the VM cell \<open>zf_cell\<close>) is a 32-bit word read with \<open>sint\<close> where its sign matters.
\<close>

type_synonym u8 = "8 word"
type_synonym u16 = "16 word"
type_synonym u32 = "32 word"
type_synonym zf_cell = "32 word"
type_synonym zf_addr = "32 word"

text \<open>The bytes of a 16-bit and of a 32-bit object in memory (little-endian), and back.\<close>

definition le16 :: "u16 \<Rightarrow> u8 list" where
  "le16 w = [ucast w, ucast (drop_bit 8 w)]"

definition le32 :: "u32 \<Rightarrow> u8 list" where
  "le32 w = [ucast w, ucast (drop_bit 8 w), ucast (drop_bit 16 w), ucast (drop_bit 24 w)]"

definition of_le16 :: "u8 \<Rightarrow> u8 \<Rightarrow> u16" where
  "of_le16 b0 b1 = push_bit 8 (ucast b1) OR ucast b0"

definition of_le32 :: "u8 \<Rightarrow> u8 \<Rightarrow> u8 \<Rightarrow> u8 \<Rightarrow> u32" where
  "of_le32 b0 b1 b2 b3 =
     push_bit 24 (ucast b3) OR push_bit 16 (ucast b2) OR push_bit 8 (ucast b1) OR ucast b0"

section \<open>Build configuration and immutable chip data\<close>

text \<open>
  The header \<open>sramplatform.h\<close> (the macros \<open>DATA_SIZE\<close>, \<open>PACKET_SIZE\<close>, \<open>UID_SIZE\<close>,
  \<open>STR_MATCH\<close>, \<open>RESET_UPWARDS\<close>, \<open>RESET_DOWNWARDS\<close>, the command and option
  enumerators and the type \<open>packet_t\<close>) and the function \<open>crc16_byte\<close> are not part of the
  sources at hand.  The numeric constants and the CRC step are parameters of the model,
  collected in one record together with the immutable chip data the code reads through
  fixed addresses: the reset vector entry \<open>g_pfnVectors[0]\<close>, the three calibration half
  words and the twelve identifier bytes.
\<close>

record config =
  DATA_SIZE :: nat
  crc16_byte :: "u16 \<Rightarrow> u8 \<Rightarrow> u16"
  PING :: u8
  READ :: u8
  WRITE :: u8
  SENSORS :: u8
  LOAD :: u8
  EXEC :: u8
  RETR :: u8
  ACK :: u8
  ERR :: u8
  OWN :: u32
  ALL_opt :: u32
  TEMP :: u32
  VDD :: u32
  g_pfnVectors0 :: u32
  vdd_cal :: u16
  temp30_cal :: u16
  temp110_cal :: u16
  uid_bytes_hi :: "u8 list"
  uid_bytes_lo :: "u8 list"

definition UID_SIZE :: nat where
  "UID_SIZE = 25"

text \<open>
  Modelled from the spec: the macro \<open>PACKET_SIZE\<close> is missing; the wire format section
  gives \<open>P = 31 + D + 2\<close>.
\<close>

definition PACKET_SIZE :: "config \<Rightarrow> nat" where
  "PACKET_SIZE cfg = 31 + DATA_SIZE cfg + 2"

text \<open>
  The command tags are pairwise distinct, and so are the option selectors that label the
  cases of one \<open>switch\<close> (C rejects duplicate case labels); \<open>DATA_SIZE\<close> is a positive
  \<open>int\<close> constant.
\<close>

definition wf_config :: "config \<Rightarrow> bool" where
  "wf_config cfg \<longleftrightarrow>
     0 < DATA_SIZE cfg \<and> DATA_SIZE cfg < 2 ^ 31 \<and>
     distinct [PING cfg, READ cfg, WRITE cfg, SENSORS cfg, LOAD cfg, EXEC cfg, RETR cfg,
               ACK cfg, ERR cfg] \<and>
     OWN cfg \<noteq> ALL_opt cfg \<and>
     distinct [ALL_opt cfg, TEMP cfg, VDD cfg] \<and>
     length (uid_bytes_hi cfg) = 8 \<and> length (uid_bytes_lo cfg) = 4"

section \<open>Packets and the packet codec (sramplatform.c)\<close>

record packet_t =
  command :: u8
  pic :: u8
  options :: u32
  uid :: "u8 list"
  data :: "u8 list"
  checksum :: u16

text \<open>The arrays \<open>uid[UID_SIZE]\<close> and \<open>data[DATA_SIZE]\<close> have their declared lengths.\<close>

definition wf_packet :: "config \<Rightarrow> packet_t \<Rightarrow> bool" where
  "wf_packet cfg p \<longleftrightarrow> length (uid p) = UID_SIZE \<and> length (data p) = DATA_SIZE cfg"

text \<open>
  \<open>parse_packet\<close>: the fields are read from fixed offsets of the receive buffer, which
  holds \<open>PACKET_SIZE\<close> bytes.
\<close>

definition parse_packet :: "config \<Rightarrow> u8 list \<Rightarrow> packet_t" where
  "parse_packet cfg buffer =
     \<lparr> command = buffer ! 0,
       pic = buffer ! 1,
       options = push_bit 24 (ucast (buffer ! 5)) OR push_bit 16 (ucast (buffer ! 4))
                   OR push_bit 8 (ucast (buffer ! 3)) OR ucast (buffer ! 2),
       uid = take 25 (drop 6 buffer),
       data = take (DATA_SIZE cfg) (drop 31 buffer),
       checksum = push_bit 8 (ucast (buffer ! (PACKET_SIZE cfg - 1)))
                    OR ucast (buffer ! (PACKET_SIZE cfg - 2)) \<rparr>"

text \<open>
  \<open>send_packet\<close> hands six memory ranges to the UART one after the other: one byte of
  \<open>command\<close>, one of \<open>pic\<close>, the four bytes of \<open>options\<close>, \<open>UID_SIZE\<close> bytes of \<open>uid\<close>,
  \<open>DATA_SIZE\<close> bytes of \<open>data\<close> and the two bytes of \<open>checksum\<close>.  \<open>packet_bytes\<close> is the
  byte sequence that reaches the wire.
\<close>

definition packet_bytes :: "config \<Rightarrow> packet_t \<Rightarrow> u8 list" where
  "packet_bytes cfg p =
     [command p] @ [pic p] @ le32 (options p) @ take UID_SIZE (uid p)
       @ take (DATA_SIZE cfg) (data p) @ le16 (checksum p)"

section \<open>The state of a node\<close>

datatype zf_result =
    ZF_OK
  | ZF_ABORT_INTERNAL_ERROR
  | ZF_ABORT_OUTSIDE_MEM
  | ZF_ABORT_DSTACK_UNDERRUN
  | ZF_ABORT_DSTACK_OVERRUN
  | ZF_ABORT_RSTACK_UNDERRUN
  | ZF_ABORT_RSTACK_OVERRUN
  | ZF_ABORT_NOT_A_WORD
  | ZF_ABORT_COMPILE_ONLY_WORD
  | ZF_ABORT_INVALID_SIZE
  | ZF_ABORT_DIVISION_BY_ZERO
  | ZF_ABORT_INVALID_USERVAR
  | ZF_ABORT_EXTERNAL

text \<open>The value of an enumerator of \<open>zf_result\<close>, as \<open>eval_cmd\<close> returns it.\<close>

fun zf_result_code :: "zf_result \<Rightarrow> u32" where
  "zf_result_code ZF_OK = 0"
| "zf_result_code ZF_ABORT_INTERNAL_ERROR = 1"
| "zf_result_code ZF_ABORT_OUTSIDE_MEM = 2"
| "zf_result_code ZF_ABORT_DSTACK_UNDERRUN = 3"
| "zf_result_code ZF_ABORT_DSTACK_OVERRUN = 4"
| "zf_result_code ZF_ABORT_RSTACK_UNDERRUN = 5"
| "zf_result_code ZF_ABORT_RSTACK_OVERRUN = 6"
| "zf_result_code ZF_ABORT_NOT_A_WORD = 7"
| "zf_result_code ZF_ABORT_COMPILE_ONLY_WORD = 8"
| "zf_result_code ZF_ABORT_INVALID_SIZE = 9"
| "zf_result_code ZF_ABORT_DIVISION_BY_ZERO = 10"
| "zf_result_code ZF_ABORT_INVALID_USERVAR = 11"
| "zf_result_code ZF_ABORT_EXTERNAL = 12"

datatype zf_input_state = ZF_INPUT_INTERPRET | ZF_INPUT_PASS_CHAR | ZF_INPUT_PASS_WORD

text \<open>\<open>huart1\<close> is the link towards the controller, \<open>huart3\<close> the link to the next node.\<close>

datatype uart = huart1 | huart3

text \<open>
  What a node does on its links, in order: it transmits bytes, or it re-arms the
  receive.
\<close>

datatype event = Transmit uart "u8 list" | Rearm uart

text \<open>
  All the variables of \<open>main.c\<close> and \<open>zforth.c\<close> with static storage.  The memory
  surface \<open>sram\<close> is the address space reached through \<open>SRAM_START\<close>, \<open>SRC_BUF\<close> and
  \<open>WRITE_BUF\<close>, byte by byte; the C objects below are kept apart from it (where the
  linker places them inside the RAM is not modelled).  A C array of fixed size is a
  function on indices; every access checks the index against the size of the array.
  \<open>hc_buf\<close> and \<open>hc_len\<close> are the static locals \<open>buf\<close> and \<open>len\<close> of \<open>handle_char\<close>;
  \<open>hc_buf\<close> holds the string in \<open>buf\<close> up to its terminating NUL.
\<close>

record machine =
  dict :: "nat \<Rightarrow> u8"
  dstack :: "nat \<Rightarrow> zf_cell"
  rstack :: "nat \<Rightarrow> zf_cell"
  input_state :: zf_input_state
  dsp :: zf_addr
  rsp :: zf_addr
  ip :: zf_addr
  hc_buf :: "u8 list"
  hc_len :: nat
  sram :: "u32 \<Rightarrow> u8"
  write_pos :: u32
  sensors0 :: u32
  sensors1 :: u32
  packet :: packet_t
  buffer :: "u8 list"
  transport_buffer :: "u8 list"
  bytes_rx :: int
  checksum_var :: u16
  trace :: "event list"

text \<open>
  How a call ends: it returns a value and the state; or \<open>zf_abort\<close> jumps back into
  \<open>zf_eval\<close> with a reason and the state at that moment; or the code reads or writes
  outside an array or an uninitialised object (undefined behaviour in C: the model stops
  there); or a loop has used up the steps granted to it.
\<close>

datatype 'a outcome = Ret 'a machine | Abort zf_result machine | Fault | OutOfFuel

definition andThen :: "'a outcome \<Rightarrow> ('a \<Rightarrow> machine \<Rightarrow> 'b outcome) \<Rightarrow> 'b outcome" where
  "andThen r f =
     (case r of Ret v s \<Rightarrow> f v s | Abort e s \<Rightarrow> Abort e s | Fault \<Rightarrow> Fault
      | OutOfFuel \<Rightarrow> OutOfFuel)"

section \<open>The memory surface (main.c, sramconf.h)\<close>

definition SRAM_ADDRESS :: u32 where
  "SRAM_ADDRESS = 0x20000000"

definition SRC_BUF_OFFSET :: nat where
  "SRC_BUF_OFFSET = 56"

definition WRITE_BUF_OFFSET :: nat where
  "WRITE_BUF_OFFSET = 58"

definition WRITE_BUF_MAX :: "config \<Rightarrow> nat" where
  "WRITE_BUF_MAX cfg = DATA_SIZE cfg"

definition SRAM_START :: u32 where
  "SRAM_START = SRAM_ADDRESS"

definition SRC_BUF :: "config \<Rightarrow> u32" where
  "SRC_BUF cfg = SRAM_ADDRESS + of_nat (SRC_BUF_OFFSET * DATA_SIZE cfg)"

text \<open>\<open>WRITE_BUF\<close> has type \<open>int32_t *\<close>: adding \<open>k\<close> to it moves by \<open>4 * k\<close> bytes.\<close>

definition WRITE_BUF :: "config \<Rightarrow> u32" where
  "WRITE_BUF cfg = SRAM_ADDRESS + of_nat (WRITE_BUF_OFFSET * DATA_SIZE cfg)"

text \<open>\<open>memcpy\<close> out of and into the memory surface.\<close>

definition mem_read :: "(u32 \<Rightarrow> u8) \<Rightarrow> u32 \<Rightarrow> nat \<Rightarrow> u8 list" where
  "mem_read m a n = map (\<lambda>i. m (a + of_nat i)) [0..<n]"

fun mem_write :: "(u32 \<Rightarrow> u8) \<Rightarrow> u32 \<Rightarrow> u8 list \<Rightarrow> (u32 \<Rightarrow> u8)" where
  "mem_write m a [] = m"
| "mem_write m a (b # bs) = mem_write (m(a := b)) (a + 1) bs"

text \<open>The 32-bit cell at an address of the memory surface.\<close>

definition load32 :: "(u32 \<Rightarrow> u8) \<Rightarrow> u32 \<Rightarrow> u32" where
  "load32 m a = of_le32 (m a) (m (a + 1)) (m (a + 2)) (m (a + 3))"

text \<open>\<open>read_sram\<close> and \<open>write_sram\<close>: the block index is a \<open>uint16_t\<close> parameter.\<close>

definition read_sram :: "config \<Rightarrow> u32 \<Rightarrow> machine \<Rightarrow> u8 list" where
  "read_sram cfg offset s =
     mem_read (sram s) (SRAM_START + of_nat (unat (ucast offset :: u16) * DATA_SIZE cfg))
       (DATA_SIZE cfg)"

definition write_sram :: "config \<Rightarrow> u32 \<Rightarrow> u8 list \<Rightarrow> machine \<Rightarrow> machine" where
  "write_sram cfg offset src s =
     s\<lparr>sram := mem_write (sram s)
                 (SRAM_START + of_nat (unat (ucast offset :: u16) * DATA_SIZE cfg))
                 (take (DATA_SIZE cfg) src)\<rparr>"

section \<open>The VM: stacks and dictionary bytes (zforth.c)\<close>

definition ZF_DICT_SIZE :: nat where
  "ZF_DICT_SIZE = 4096"

definition ZF_DSTACK_SIZE :: nat where
  "ZF_DSTACK_SIZE = 32"

definition ZF_RSTACK_SIZE :: nat where
  "ZF_RSTACK_SIZE = 32"

definition ZF_FLAG_IMMEDIATE :: u32 where
  "ZF_FLAG_IMMEDIATE = 64"

definition ZF_FLAG_PRIM :: u32 where
  "ZF_FLAG_PRIM = 32"

definition ZF_FLAG_LEN :: "u32 \<Rightarrow> u32" where
  "ZF_FLAG_LEN v = v AND 0x1f"

text \<open>
  \<open>zf_abort\<close> is \<open>longjmp(jmpbuf, reason)\<close>: \<open>setjmp\<close> then returns the reason, and 1 when
  the reason is 0.
\<close>

definition zf_abort :: "zf_result \<Rightarrow> machine \<Rightarrow> 'a outcome" where
  "zf_abort reason s =
     Abort (if reason = ZF_OK then ZF_ABORT_INTERNAL_ERROR else reason) s"

text \<open>
  The stack operations.  \<open>ZF_ENABLE_BOUNDARY_CHECKS\<close> is 0, so the macro \<open>CHECK\<close> expands
  to nothing: the array is indexed with whatever the unsigned stack pointer holds.
\<close>

definition zf_push :: "zf_cell \<Rightarrow> machine \<Rightarrow> unit outcome" where
  "zf_push v s =
     (if unat (dsp s) < ZF_DSTACK_SIZE
      then Ret () (s\<lparr>dstack := (dstack s)(unat (dsp s) := v), dsp := dsp s + 1\<rparr>)
      else Fault)"

definition zf_pop :: "machine \<Rightarrow> zf_cell outcome" where
  "zf_pop s =
     (let d = dsp s - 1 in
      if unat d < ZF_DSTACK_SIZE then Ret (dstack s (unat d)) (s\<lparr>dsp := d\<rparr>) else Fault)"

definition zf_pick :: "zf_addr \<Rightarrow> machine \<Rightarrow> zf_cell outcome" where
  "zf_pick n s =
     (let i = dsp s - n - 1 in
      if unat i < ZF_DSTACK_SIZE then Ret (dstack s (unat i)) s else Fault)"

definition zf_pushr :: "zf_cell \<Rightarrow> machine \<Rightarrow> unit outcome" where
  "zf_pushr v s =
     (if unat (rsp s) < ZF_RSTACK_SIZE
      then Ret () (s\<lparr>rstack := (rstack s)(unat (rsp s) := v), rsp := rsp s + 1\<rparr>)
      else Fault)"

definition zf_popr :: "machine \<Rightarrow> zf_cell outcome" where
  "zf_popr s =
     (let r = rsp s - 1 in
      if unat r < ZF_RSTACK_SIZE then Ret (rstack s (unat r)) (s\<lparr>rsp := r\<rparr>) else Fault)"

definition zf_pickr :: "zf_addr \<Rightarrow> machine \<Rightarrow> zf_cell outcome" where
  "zf_pickr n s =
     (let i = rsp s - n - 1 in
      if unat i < ZF_RSTACK_SIZE then Ret (rstack s (unat i)) s else Fault)"

text \<open>
  \<open>dict_put_bytes\<close> and \<open>dict_get_bytes\<close> copy byte by byte, \<open>addr++\<close> each time; the
  \<open>CHECK\<close> in front of the loop is compiled out.
\<close>

fun put_bytes :: "(nat \<Rightarrow> u8) \<Rightarrow> zf_addr \<Rightarrow> u8 list \<Rightarrow> (nat \<Rightarrow> u8) option" where
  "put_bytes d addr [] = Some d"
| "put_bytes d addr (b # bs) =
     (if unat addr < ZF_DICT_SIZE then put_bytes (d(unat addr := b)) (addr + 1) bs else None)"

fun get_bytes :: "(nat \<Rightarrow> u8) \<Rightarrow> zf_addr \<Rightarrow> nat \<Rightarrow> u8 list option" where
  "get_bytes d addr 0 = Some []"
| "get_bytes d addr (Suc n) =
     (if unat addr < ZF_DICT_SIZE
      then (case get_bytes d (addr + 1) n of None \<Rightarrow> None | Some bs \<Rightarrow> Some (d (unat addr) # bs))
      else None)"

definition dict_put_bytes :: "zf_addr \<Rightarrow> u8 list \<Rightarrow> machine \<Rightarrow> zf_addr outcome" where
  "dict_put_bytes addr buf s =
     (case put_bytes (dict s) addr buf of
        None \<Rightarrow> Fault
      | Some d \<Rightarrow> Ret (of_nat (length buf)) (s\<lparr>dict := d\<rparr>))"

definition dict_get_bytes :: "zf_addr \<Rightarrow> nat \<Rightarrow> machine \<Rightarrow> u8 list outcome" where
  "dict_get_bytes addr len s =
     (case get_bytes (dict s) addr len of None \<Rightarrow> Fault | Some bs \<Rightarrow> Ret bs s)"

text \<open>
  The user variables are the array \<open>uservar = (zf_addr *) dict\<close>: variable \<open>i\<close> is the four
  bytes of the dictionary from \<open>4 * i\<close>.
\<close>

definition ZF_USERVAR_COUNT :: nat where
  "ZF_USERVAR_COUNT = 5"

definition ZF_USERVAR_HERE :: nat where "ZF_USERVAR_HERE = 0"
definition ZF_USERVAR_LATEST :: nat where "ZF_USERVAR_LATEST = 1"
definition ZF_USERVAR_TRACE :: nat where "ZF_USERVAR_TRACE = 2"
definition ZF_USERVAR_COMPILING :: nat where "ZF_USERVAR_COMPILING = 3"
definition ZF_USERVAR_POSTPONE :: nat where "ZF_USERVAR_POSTPONE = 4"

definition uservar :: "machine \<Rightarrow> nat \<Rightarrow> zf_addr" where
  "uservar s i =
     of_le32 (dict s (4 * i)) (dict s (4 * i + 1)) (dict s (4 * i + 2)) (dict s (4 * i + 3))"

definition uservar_set :: "nat \<Rightarrow> zf_addr \<Rightarrow> machine \<Rightarrow> machine" where
  "uservar_set i v s =
     s\<lparr>dict := (dict s)(4 * i := ucast v, 4 * i + 1 := ucast (drop_bit 8 v),
                          4 * i + 2 := ucast (drop_bit 16 v), 4 * i + 3 := ucast (drop_bit 24 v))\<rparr>"

definition HERE :: "machine \<Rightarrow> zf_addr" where "HERE s = uservar s ZF_USERVAR_HERE"
definition LATEST :: "machine \<Rightarrow> zf_addr" where "LATEST s = uservar s ZF_USERVAR_LATEST"
definition TRACE :: "machine \<Rightarrow> zf_addr" where "TRACE s = uservar s ZF_USERVAR_TRACE"
definition COMPILING :: "machine \<Rightarrow> zf_addr" where "COMPILING s = uservar s ZF_USERVAR_COMPILING"
definition POSTPONE :: "machine \<Rightarrow> zf_addr" where "POSTPONE s = uservar s ZF_USERVAR_POSTPONE"

section \<open>The VM: cells in the dictionary\<close>

datatype zf_mem_size =
    ZF_MEM_SIZE_VAR
  | ZF_MEM_SIZE_CELL
  | ZF_MEM_SIZE_U8
  | ZF_MEM_SIZE_U16
  | ZF_MEM_SIZE_U32
  | ZF_MEM_SIZE_S8
  | ZF_MEM_SIZE_S16
  | ZF_MEM_SIZE_S32

fun mem_size_code :: "zf_mem_size \<Rightarrow> u32" where
  "mem_size_code ZF_MEM_SIZE_VAR = 0"
| "mem_size_code ZF_MEM_SIZE_CELL = 1"
| "mem_size_code ZF_MEM_SIZE_U8 = 2"
| "mem_size_code ZF_MEM_SIZE_U16 = 3"
| "mem_size_code ZF_MEM_SIZE_U32 = 4"
| "mem_size_code ZF_MEM_SIZE_S8 = 5"
| "mem_size_code ZF_MEM_SIZE_S16 = 6"
| "mem_size_code ZF_MEM_SIZE_S32 = 7"

text \<open>
  The size selector reaches the two functions below through the cast \<open>(zf_mem_size) d\<close> of
  a cell, and they compare it with the enumerators one by one: the model passes the
  number.
\<close>

definition dict_put_cell_typed :: "zf_addr \<Rightarrow> zf_cell \<Rightarrow> u32 \<Rightarrow> machine \<Rightarrow> zf_addr outcome" where
  "dict_put_cell_typed addr v sz s =
     (let vi = v in
      if sz = mem_size_code ZF_MEM_SIZE_VAR then
        if v - vi = 0 \<and> vi < 128 then dict_put_bytes addr [ucast vi] s
        else if v - vi = 0 \<and> vi < 16384 then
          dict_put_bytes addr [ucast (drop_bit 8 vi) OR 0x80, ucast vi] s
        else
          andThen (dict_put_bytes (addr + 0) [0xff] s) (\<lambda>n1 s.
          andThen (dict_put_bytes (addr + 1) (le32 v) s) (\<lambda>n2 s.
          Ret (n1 + n2) s))
      else if sz = mem_size_code ZF_MEM_SIZE_CELL then dict_put_bytes addr (le32 v) s
      else if sz = mem_size_code ZF_MEM_SIZE_U8 then dict_put_bytes addr [ucast vi] s
      else if sz = mem_size_code ZF_MEM_SIZE_U16 then dict_put_bytes addr (le16 (ucast vi)) s
      else if sz = mem_size_code ZF_MEM_SIZE_U32 then dict_put_bytes addr (le32 vi) s
      else if sz = mem_size_code ZF_MEM_SIZE_S8 then dict_put_bytes addr [ucast vi] s
      else if sz = mem_size_code ZF_MEM_SIZE_S16 then dict_put_bytes addr (le16 (ucast vi)) s
      else if sz = mem_size_code ZF_MEM_SIZE_S32 then dict_put_bytes addr (le32 vi) s
      else zf_abort ZF_ABORT_INVALID_SIZE s)"

definition dict_get_cell_typed :: "zf_addr \<Rightarrow> u32 \<Rightarrow> machine \<Rightarrow> (zf_addr \<times> zf_cell) outcome" where
  "dict_get_cell_typed addr sz s =
     andThen (dict_get_bytes addr 2 s) (\<lambda>t s.
       if sz = mem_size_code ZF_MEM_SIZE_VAR then
         if (t ! 0) AND 0x80 \<noteq> 0 then
           if t ! 0 = 0xff then
             andThen (dict_get_bytes (addr + 1) 4 s) (\<lambda>b s.
               Ret (5, of_le32 (b ! 0) (b ! 1) (b ! 2) (b ! 3)) s)
           else Ret (2, push_bit 8 (ucast ((t ! 0) AND 0x3f)) + ucast (t ! 1)) s
         else Ret (1, ucast (t ! 0)) s
       else if sz = mem_size_code ZF_MEM_SIZE_CELL then
         andThen (dict_get_bytes addr 4 s) (\<lambda>b s.
           Ret (4, of_le32 (b ! 0) (b ! 1) (b ! 2) (b ! 3)) s)
       else if sz = mem_size_code ZF_MEM_SIZE_U8 then
         andThen (dict_get_bytes addr 1 s) (\<lambda>b s. Ret (1, ucast (b ! 0)) s)
       else if sz = mem_size_code ZF_MEM_SIZE_U16 then
         andThen (dict_get_bytes addr 2 s) (\<lambda>b s. Ret (2, ucast (of_le16 (b ! 0) (b ! 1))) s)
       else if sz = mem_size_code ZF_MEM_SIZE_U32 then
         andThen (dict_get_bytes addr 4 s) (\<lambda>b s.
           Ret (4, of_le32 (b ! 0) (b ! 1) (b ! 2) (b ! 3)) s)
       else if sz = mem_size_code ZF_MEM_SIZE_S8 then
         andThen (dict_get_bytes addr 1 s) (\<lambda>b s. Ret (1, scast (b ! 0)) s)
       else if sz = mem_size_code ZF_MEM_SIZE_S16 then
         andThen (dict_get_bytes addr 2 s) (\<lambda>b s. Ret (2, scast (of_le16 (b ! 0) (b ! 1))) s)
       else if sz = mem_size_code ZF_MEM_SIZE_S32 then
         andThen (dict_get_bytes addr 4 s) (\<lambda>b s.
           Ret (4, of_le32 (b ! 0) (b ! 1) (b ! 2) (b ! 3)) s)
       else zf_abort ZF_ABORT_INVALID_SIZE s)"

definition dict_put_cell :: "zf_addr \<Rightarrow> zf_cell \<Rightarrow> machine \<Rightarrow> zf_addr outcome" where
  "dict_put_cell addr v s = dict_put_cell_typed addr v (mem_size_code ZF_MEM_SIZE_VAR) s"

definition dict_get_cell :: "zf_addr \<Rightarrow> machine \<Rightarrow> (zf_addr \<times> zf_cell) outcome" where
  "dict_get_cell addr s = dict_get_cell_typed addr (mem_size_code ZF_MEM_SIZE_VAR) s"

text \<open>
  What a typed read returns for a cell \<open>v\<close> written with the same selector: the low 8 or
  16 bits, zero-extended or sign-extended, for the narrow selectors; \<open>v\<close> for the others.
\<close>

fun truncate_to :: "zf_mem_size \<Rightarrow> zf_cell \<Rightarrow> zf_cell" where
  "truncate_to ZF_MEM_SIZE_VAR v = v"
| "truncate_to ZF_MEM_SIZE_CELL v = v"
| "truncate_to ZF_MEM_SIZE_U8 v = take_bit 8 v"
| "truncate_to ZF_MEM_SIZE_U16 v = take_bit 16 v"
| "truncate_to ZF_MEM_SIZE_U32 v = v"
| "truncate_to ZF_MEM_SIZE_S8 v = signed_take_bit 7 v"
| "truncate_to ZF_MEM_SIZE_S16 v = signed_take_bit 15 v"
| "truncate_to ZF_MEM_SIZE_S32 v = v"

section \<open>The VM: adding to the dictionary\<close>

text \<open>
  \<open>HERE += dict_put_cell_typed(HERE, v, size)\<close>: the bytes are written first, then \<open>HERE\<close>
  is read and advanced.
\<close>

definition dict_add_cell_typed :: "zf_cell \<Rightarrow> u32 \<Rightarrow> machine \<Rightarrow> unit outcome" where
  "dict_add_cell_typed v sz s =
     andThen (dict_put_cell_typed (HERE s) v sz s) (\<lambda>n s.
       Ret () (uservar_set ZF_USERVAR_HERE (HERE s + n) s))"

definition dict_add_cell :: "zf_cell \<Rightarrow> machine \<Rightarrow> unit outcome" where
  "dict_add_cell v s = dict_add_cell_typed v (mem_size_code ZF_MEM_SIZE_VAR) s"

definition dict_add_op :: "zf_addr \<Rightarrow> machine \<Rightarrow> unit outcome" where
  "dict_add_op op s = dict_add_cell op s"

definition PRIM_LIT_code :: u32 where
  "PRIM_LIT_code = 1"

definition PRIM_EXIT_code :: u32 where
  "PRIM_EXIT_code = 0"

definition dict_add_lit :: "zf_cell \<Rightarrow> machine \<Rightarrow> unit outcome" where
  "dict_add_lit v s =
     andThen (dict_add_op PRIM_LIT_code s) (\<lambda>_ s. dict_add_cell v s)"

definition dict_add_str :: "u8 list \<Rightarrow> machine \<Rightarrow> unit outcome" where
  "dict_add_str str s =
     andThen (dict_put_bytes (HERE s) str s) (\<lambda>n s.
       Ret () (uservar_set ZF_USERVAR_HERE (HERE s + n) s))"

definition create :: "u8 list \<Rightarrow> u32 \<Rightarrow> machine \<Rightarrow> unit outcome" where
  "create name flags s =
     (let here_prev = HERE s in
      andThen (dict_add_cell (of_nat (length name) OR flags) s) (\<lambda>_ s.
      andThen (dict_add_cell (LATEST s) s) (\<lambda>_ s.
      andThen (dict_add_str name s) (\<lambda>_ s.
      Ret () (uservar_set ZF_USERVAR_LATEST here_prev s)))))"

text \<open>
  \<open>find_word\<close> walks the chain of links from \<open>LATEST\<close>.  The chain lives in the
  dictionary, which a program can overwrite, so the walk need not end: each step uses
  one unit of fuel.  \<open>memcmp\<close> reads \<open>len\<close> bytes of the dictionary from \<open>p\<close>.
\<close>

primrec find_word_loop ::
  "nat \<Rightarrow> u8 list \<Rightarrow> zf_addr \<Rightarrow> machine \<Rightarrow> (zf_addr \<times> zf_addr) option outcome" where
  "find_word_loop 0 name w s = OutOfFuel"
| "find_word_loop (Suc n) name w s =
     (if w = 0 then Ret None s
      else
        andThen (dict_get_cell w s) (\<lambda>r1 s.
        andThen (dict_get_cell (w + fst r1) s) (\<lambda>r2 s.
          let d = snd r1; link = snd r2; p = w + fst r1 + fst r2; len = ZF_FLAG_LEN d in
          if unat len = length name then
            andThen (dict_get_bytes p (unat len) s) (\<lambda>name2 s.
              if name = name2 then Ret (Some (w, p + len)) s
              else find_word_loop n name link s)
          else find_word_loop n name link s)))"

definition find_word :: "nat \<Rightarrow> u8 list \<Rightarrow> machine \<Rightarrow> (zf_addr \<times> zf_addr) option outcome" where
  "find_word n name s = find_word_loop n name (LATEST s) s"

definition make_immediate :: "machine \<Rightarrow> unit outcome" where
  "make_immediate s =
     andThen (dict_get_cell (LATEST s) s) (\<lambda>r s.
     andThen (dict_put_cell (LATEST s) (snd r OR ZF_FLAG_IMMEDIATE) s) (\<lambda>_ s.
     Ret () s))"

section \<open>The VM: primitives\<close>

datatype zf_prim =
    PRIM_EXIT | PRIM_LIT | PRIM_LTZ | PRIM_COL | PRIM_SEMICOL | PRIM_ADD
  | PRIM_SUB | PRIM_MUL | PRIM_DIV | PRIM_MOD | PRIM_DROP | PRIM_DUP
  | PRIM_PICKR | PRIM_IMMEDIATE | PRIM_PEEK | PRIM_POKE | PRIM_SWAP | PRIM_ROT
  | PRIM_JMP | PRIM_JMP0 | PRIM_TICK | PRIM_COMMENT | PRIM_PUSHR | PRIM_POPR
  | PRIM_EQUAL | PRIM_SYS | PRIM_PICK | PRIM_COMMA | PRIM_KEY | PRIM_LITS
  | PRIM_LEN | PRIM_AND | PRIM_OR | PRIM_XOR | PRIM_SHL | PRIM_SHR
  | PRIM_EMIT | PRIM_DEVREAD | PRIM_DEVWRITE | PRIM_DEVTEMP | PRIM_DEVVDD

text \<open>The enumerators in the order of their declaration; \<open>PRIM_COUNT\<close> follows the last.\<close>

definition prim_table :: "zf_prim list" where
  "prim_table =
     [PRIM_EXIT, PRIM_LIT, PRIM_LTZ, PRIM_COL, PRIM_SEMICOL, PRIM_ADD,
      PRIM_SUB, PRIM_MUL, PRIM_DIV, PRIM_MOD, PRIM_DROP, PRIM_DUP,
      PRIM_PICKR, PRIM_IMMEDIATE, PRIM_PEEK, PRIM_POKE, PRIM_SWAP, PRIM_ROT,
      PRIM_JMP, PRIM_JMP0, PRIM_TICK, PRIM_COMMENT, PRIM_PUSHR, PRIM_POPR,
      PRIM_EQUAL, PRIM_SYS, PRIM_PICK, PRIM_COMMA, PRIM_KEY, PRIM_LITS,
      PRIM_LEN, PRIM_AND, PRIM_OR, PRIM_XOR, PRIM_SHL, PRIM_SHR,
      PRIM_EMIT, PRIM_DEVREAD, PRIM_DEVWRITE, PRIM_DEVTEMP, PRIM_DEVVDD]"

definition PRIM_COUNT :: u32 where
  "PRIM_COUNT = 41"

definition prim_of :: "u32 \<Rightarrow> zf_prim option" where
  "prim_of code = (if code < PRIM_COUNT then Some (prim_table ! unat code) else None)"

text \<open>The number of an enumerator: its place in the declaration.\<close>

definition prim_code :: "zf_prim \<Rightarrow> u32" where
  "prim_code p = of_nat (length (takeWhile (\<lambda>q. q \<noteq> p) prim_table))"

text \<open>
  The \<open>input\<close> argument of \<open>run\<close> and \<open>do_prim\<close>: \<open>NULL\<close>, the word collected by
  \<open>handle_char\<close> (a NUL-terminated string), or the address of the single character
  \<open>handle_char\<close> received.
\<close>

datatype input = NoInput | Word "u8 list" | Char u8

definition peek :: "zf_addr \<Rightarrow> u32 \<Rightarrow> machine \<Rightarrow> (zf_addr \<times> zf_cell) outcome" where
  "peek addr len s =
     (if addr < of_nat ZF_USERVAR_COUNT then Ret (1, uservar s (unat addr)) s
      else dict_get_cell_typed addr len s)"

text \<open>
  \<open>do_prim\<close>.  \<open>int32_t\<close> arithmetic wraps around as the target's instructions do; \<open>/\<close>
  and \<open>%\<close> truncate towards zero; \<open>>>\<close> on a signed cell is an arithmetic shift.  A word
  passed where the code takes a string is used whole; a single character passed there
  is not a string (\<open>strlen\<close> would read past it).
\<close>

definition do_prim :: "nat \<Rightarrow> config \<Rightarrow> u32 \<Rightarrow> input \<Rightarrow> machine \<Rightarrow> unit outcome" where
  "do_prim n cfg op inp s =
     (case prim_of op of
        Some PRIM_COL \<Rightarrow>
          (case inp of
             NoInput \<Rightarrow> Ret () (s\<lparr>input_state := ZF_INPUT_PASS_WORD\<rparr>)
           | Word w \<Rightarrow>
               andThen (create w 0 s) (\<lambda>_ s. Ret () (uservar_set ZF_USERVAR_COMPILING 1 s))
           | Char c \<Rightarrow> Fault)
      | Some PRIM_LTZ \<Rightarrow>
          andThen (zf_pop s) (\<lambda>v s. zf_push (of_bool (sint v < 0)) s)
      | Some PRIM_SEMICOL \<Rightarrow>
          andThen (dict_add_op PRIM_EXIT_code s) (\<lambda>_ s.
            Ret () (uservar_set ZF_USERVAR_COMPILING 0 s))
      | Some PRIM_LIT \<Rightarrow>
          andThen (dict_get_cell (ip s) s) (\<lambda>r s. zf_push (snd r) (s\<lparr>ip := ip s + fst r\<rparr>))
      | Some PRIM_EXIT \<Rightarrow>
          andThen (zf_popr s) (\<lambda>v s. Ret () (s\<lparr>ip := v\<rparr>))
      | Some PRIM_LEN \<Rightarrow>
          andThen (zf_pop s) (\<lambda>len s.
          andThen (zf_pop s) (\<lambda>addr s.
          andThen (peek addr len s) (\<lambda>r s. zf_push (fst r) s)))
      | Some PRIM_PEEK \<Rightarrow>
          andThen (zf_pop s) (\<lambda>len s.
          andThen (zf_pop s) (\<lambda>addr s.
          andThen (peek addr len s) (\<lambda>r s. zf_push (snd r) s)))
      | Some PRIM_POKE \<Rightarrow>
          andThen (zf_pop s) (\<lambda>d2 s.
          andThen (zf_pop s) (\<lambda>addr s.
          andThen (zf_pop s) (\<lambda>d1 s.
            if addr < of_nat ZF_USERVAR_COUNT then Ret () (uservar_set (unat addr) d1 s)
            else andThen (dict_put_cell_typed addr d1 d2 s) (\<lambda>_ s. Ret () s))))
      | Some PRIM_SWAP \<Rightarrow>
          andThen (zf_pop s) (\<lambda>d1 s.
          andThen (zf_pop s) (\<lambda>d2 s.
          andThen (zf_push d1 s) (\<lambda>_ s. zf_push d2 s)))
      | Some PRIM_ROT \<Rightarrow>
          andThen (zf_pop s) (\<lambda>d1 s.
          andThen (zf_pop s) (\<lambda>d2 s.
          andThen (zf_pop s) (\<lambda>d3 s.
          andThen (zf_push d2 s) (\<lambda>_ s.
          andThen (zf_push d1 s) (\<lambda>_ s. zf_push d3 s)))))
      | Some PRIM_DROP \<Rightarrow>
          andThen (zf_pop s) (\<lambda>_ s. Ret () s)
      | Some PRIM_DUP \<Rightarrow>
          andThen (zf_pop s) (\<lambda>d1 s.
          andThen (zf_push d1 s) (\<lambda>_ s. zf_push d1 s))
      | Some PRIM_ADD \<Rightarrow>
          andThen (zf_pop s) (\<lambda>d1 s.
          andThen (zf_pop s) (\<lambda>d2 s. zf_push (d1 + d2) s))
      | Some PRIM_PICK \<Rightarrow>
          andThen (zf_pop s) (\<lambda>addr s.
          andThen (zf_pick addr s) (\<lambda>v s. zf_push v s))
      | Some PRIM_PICKR \<Rightarrow>
          andThen (zf_pop s) (\<lambda>addr s.
          andThen (zf_pickr addr s) (\<lambda>v s. zf_push v s))
      | Some PRIM_SUB \<Rightarrow>
          andThen (zf_pop s) (\<lambda>d1 s.
          andThen (zf_pop s) (\<lambda>d2 s. zf_push (d2 - d1) s))
      | Some PRIM_MUL \<Rightarrow>
          andThen (zf_pop s) (\<lambda>a s.
          andThen (zf_pop s) (\<lambda>b s. zf_push (a * b) s))
      | Some PRIM_DIV \<Rightarrow>
          andThen (zf_pop s) (\<lambda>d2 s.
            if d2 = 0 then zf_abort ZF_ABORT_DIVISION_BY_ZERO s
            else andThen (zf_pop s) (\<lambda>d1 s. zf_push (word_of_int (sint d1 sdiv sint d2)) s))
      | Some PRIM_MOD \<Rightarrow>
          andThen (zf_pop s) (\<lambda>d2 s.
            if d2 = 0 then zf_abort ZF_ABORT_DIVISION_BY_ZERO s
            else andThen (zf_pop s) (\<lambda>d1 s. zf_push (word_of_int (sint d1 smod sint d2)) s))
      | Some PRIM_IMMEDIATE \<Rightarrow> make_immediate s
      | Some PRIM_JMP \<Rightarrow>
          andThen (dict_get_cell (ip s) s) (\<lambda>r s. Ret () (s\<lparr>ip := snd r\<rparr>))
      | Some PRIM_JMP0 \<Rightarrow>
          andThen (dict_get_cell (ip s) s) (\<lambda>r s.
          andThen (zf_pop (s\<lparr>ip := ip s + fst r\<rparr>)) (\<lambda>v s.
            if v = 0 then Ret () (s\<lparr>ip := snd r\<rparr>) else Ret () s))
      | Some PRIM_TICK \<Rightarrow>
          (if COMPILING s \<noteq> 0 then
             andThen (dict_get_cell (ip s) s) (\<lambda>r s. zf_push (snd r) (s\<lparr>ip := ip s + fst r\<rparr>))
           else
             (case inp of
                NoInput \<Rightarrow> Ret () (s\<lparr>input_state := ZF_INPUT_PASS_WORD\<rparr>)
              | Word w \<Rightarrow>
                  andThen (find_word n w s) (\<lambda>found s.
                    case found of
                      Some wc \<Rightarrow> zf_push (snd wc) s
                    | None \<Rightarrow> zf_abort ZF_ABORT_INTERNAL_ERROR s)
              | Char c \<Rightarrow> Fault))
      | Some PRIM_COMMA \<Rightarrow>
          andThen (zf_pop s) (\<lambda>d2 s.
          andThen (zf_pop s) (\<lambda>d1 s. dict_add_cell_typed d1 d2 s))
      | Some PRIM_COMMENT \<Rightarrow>
          (case inp of
             NoInput \<Rightarrow> Ret () (s\<lparr>input_state := ZF_INPUT_PASS_CHAR\<rparr>)
           | Word w \<Rightarrow>
               (if take 1 w \<noteq> [0x29] then Ret () (s\<lparr>input_state := ZF_INPUT_PASS_CHAR\<rparr>)
                else Ret () s)
           | Char c \<Rightarrow>
               (if c \<noteq> 0x29 then Ret () (s\<lparr>input_state := ZF_INPUT_PASS_CHAR\<rparr>)
                else Ret () s))
      | Some PRIM_PUSHR \<Rightarrow>
          andThen (zf_pop s) (\<lambda>v s. zf_pushr v s)
      | Some PRIM_POPR \<Rightarrow>
          andThen (zf_popr s) (\<lambda>v s. zf_push v s)
      | Some PRIM_EQUAL \<Rightarrow>
          andThen (zf_pop s) (\<lambda>a s.
          andThen (zf_pop s) (\<lambda>b s. zf_push (of_bool (a = b)) s))
      | Some PRIM_KEY \<Rightarrow>
          (case inp of
             NoInput \<Rightarrow> Ret () (s\<lparr>input_state := ZF_INPUT_PASS_CHAR\<rparr>)
           | Word w \<Rightarrow> zf_push (case w of [] \<Rightarrow> 0 | c # _ \<Rightarrow> ucast c) s
           | Char c \<Rightarrow> zf_push (ucast c) s)
      | Some PRIM_LITS \<Rightarrow>
          andThen (dict_get_cell (ip s) s) (\<lambda>r s.
          andThen (zf_push (ip s + fst r) (s\<lparr>ip := ip s + fst r\<rparr>)) (\<lambda>_ s.
          andThen (zf_push (snd r) s) (\<lambda>_ s. Ret () (s\<lparr>ip := ip s + snd r\<rparr>))))
      | Some PRIM_AND \<Rightarrow>
          andThen (zf_pop s) (\<lambda>a s.
          andThen (zf_pop s) (\<lambda>b s. zf_push (a AND b) s))
      | Some PRIM_OR \<Rightarrow>
          andThen (zf_pop s) (\<lambda>a s.
          andThen (zf_pop s) (\<lambda>b s. zf_push (a OR b) s))
      | Some PRIM_XOR \<Rightarrow>
          andThen (zf_pop s) (\<lambda>a s.
          andThen (zf_pop s) (\<lambda>b s. zf_push (a XOR b) s))
      | Some PRIM_SHL \<Rightarrow>
          andThen (zf_pop s) (\<lambda>d1 s.
          andThen (zf_pop s) (\<lambda>v s. zf_push (push_bit (unat d1) v) s))
      | Some PRIM_SHR \<Rightarrow>
          andThen (zf_pop s) (\<lambda>d1 s.
          andThen (zf_pop s) (\<lambda>v s. zf_push (signed_drop_bit (unat d1) v) s))
      | Some PRIM_DEVREAD \<Rightarrow>
          andThen (zf_pop s) (\<lambda>off s. zf_push (ucast (sram s (SRAM_START + off))) s)
      | Some PRIM_EMIT \<Rightarrow>
          andThen (zf_pop s) (\<lambda>d1 s.
            let s1 = s\<lparr>sram := mem_write (sram s) (WRITE_BUF cfg + 4 * write_pos s) (le32 d1),
                       write_pos := write_pos s + 1\<rparr>
            in Ret () (s1\<lparr>write_pos := (if write_pos s1 = of_nat (WRITE_BUF_MAX cfg) then 0
                                          else write_pos s1)\<rparr>))
      | Some PRIM_DEVWRITE \<Rightarrow>
          andThen (zf_pop s) (\<lambda>d1 s.
          andThen (zf_pop s) (\<lambda>d2 s.
            Ret () (s\<lparr>sram := (sram s)(SRAM_START + d1 := ucast d2)\<rparr>)))
      | Some PRIM_DEVTEMP \<Rightarrow> zf_push (sensors0 s) s
      | Some PRIM_DEVVDD \<Rightarrow> zf_push (sensors1 s) s
      | _ \<Rightarrow> zf_abort ZF_ABORT_INTERNAL_ERROR s)"

section \<open>The VM: inner interpreter, words and characters\<close>

text \<open>
  \<open>run\<close>: a Forth program can loop for ever, so each turn of the \<open>while\<close> loop uses one
  unit of fuel.
\<close>

primrec run :: "nat \<Rightarrow> config \<Rightarrow> input \<Rightarrow> machine \<Rightarrow> unit outcome" where
  "run 0 cfg inp s = OutOfFuel"
| "run (Suc n) cfg inp s =
     (if ip s = 0 then Ret () s
      else
        let ip_org = ip s in
        andThen (dict_get_cell (ip s) s) (\<lambda>r s.
          let code = snd r; s = s\<lparr>ip := ip s + fst r\<rparr> in
          if code \<le> PRIM_COUNT then
            andThen (do_prim n cfg code inp s) (\<lambda>_ s.
              if input_state s \<noteq> ZF_INPUT_INTERPRET then Ret () (s\<lparr>ip := ip_org\<rparr>)
              else run n cfg NoInput s)
          else
            andThen (zf_pushr (ip s) s) (\<lambda>_ s. run n cfg NoInput (s\<lparr>ip := code\<rparr>))))"

definition execute :: "nat \<Rightarrow> config \<Rightarrow> zf_addr \<Rightarrow> machine \<Rightarrow> unit outcome" where
  "execute n cfg addr s =
     andThen (zf_pushr 0 (s\<lparr>ip := addr, rsp := 0\<rparr>)) (\<lambda>_ s. run n cfg NoInput s)"

text \<open>
  \<open>zf_host_parse_num\<close> is \<open>sscanf(buf, "%li%n", &v, &n)\<close> followed by the test
  \<open>r == 0 || buf[n] != 0\<close>.  The C library is not part of the sources; \<open>scan_li\<close> follows
  its contract for \<open>%li\<close>: an optional sign, then \<open>0x\<close> and hexadecimal digits, or \<open>0\<close> and
  octal digits, or decimal digits; \<open>None\<close> when no number is read or characters are left
  over.  A value outside of \<open>long\<close> is clamped.  On the empty string \<open>sscanf\<close> returns
  \<open>EOF\<close> and the function returns \<open>v\<close> uninitialised.
\<close>

definition digit_val :: "u8 \<Rightarrow> nat option" where
  "digit_val c =
     (if 0x30 \<le> c \<and> c \<le> 0x39 then Some (unat c - 48)
      else if 0x61 \<le> c \<and> c \<le> 0x66 then Some (unat c - 87)
      else if 0x41 \<le> c \<and> c \<le> 0x46 then Some (unat c - 55)
      else None)"

fun digits_val :: "nat \<Rightarrow> int \<Rightarrow> u8 list \<Rightarrow> int option" where
  "digits_val base acc [] = Some acc"
| "digits_val base acc (c # cs) =
     (case digit_val c of
        None \<Rightarrow> None
      | Some d \<Rightarrow> if d < base then digits_val base (acc * int base + int d) cs else None)"

definition scan_li :: "u8 list \<Rightarrow> int option" where
  "scan_li buf =
     (let neg = (take 1 buf = [0x2d]);
          r = (if take 1 buf = [0x2d] \<or> take 1 buf = [0x2b] then drop 1 buf else buf);
          mag = (if 3 \<le> length r \<and> r ! 0 = 0x30 \<and> (r ! 1 = 0x78 \<or> r ! 1 = 0x58)
                 then digits_val 16 0 (drop 2 r)
                 else if take 1 r = [0x30] then digits_val 8 0 (drop 1 r)
                 else if r \<noteq> [] then digits_val 10 0 r
                 else None)
      in case mag of None \<Rightarrow> None | Some m \<Rightarrow> Some (if neg then - m else m))"

definition zf_host_parse_num :: "u8 list \<Rightarrow> machine \<Rightarrow> zf_cell outcome" where
  "zf_host_parse_num buf s =
     (if buf = [] then Fault
      else case scan_li buf of
             None \<Rightarrow> zf_abort ZF_ABORT_NOT_A_WORD s
           | Some v \<Rightarrow> Ret (word_of_int (max (- (2 ^ 31)) (min (2 ^ 31 - 1) v))) s)"

definition handle_word :: "nat \<Rightarrow> config \<Rightarrow> u8 list \<Rightarrow> machine \<Rightarrow> unit outcome" where
  "handle_word n cfg buf s =
     (if input_state s = ZF_INPUT_PASS_WORD
      then run n cfg (Word buf) (s\<lparr>input_state := ZF_INPUT_INTERPRET\<rparr>)
      else
        andThen (find_word n buf s) (\<lambda>found s.
          case found of
            Some wc \<Rightarrow>
              andThen (dict_get_cell (fst wc) s) (\<lambda>r s.
                let flags = snd r in
                if COMPILING s \<noteq> 0 \<and> (POSTPONE s \<noteq> 0 \<or> flags AND ZF_FLAG_IMMEDIATE = 0) then
                  andThen
                    (if flags AND ZF_FLAG_PRIM \<noteq> 0
                     then andThen (dict_get_cell (snd wc) s) (\<lambda>r2 s. dict_add_op (snd r2) s)
                     else dict_add_op (snd wc) s)
                    (\<lambda>_ s. Ret () (uservar_set ZF_USERVAR_POSTPONE 0 s))
                else execute n cfg (snd wc) s)
          | None \<Rightarrow>
              andThen (zf_host_parse_num buf s) (\<lambda>v s.
                if COMPILING s \<noteq> 0 then dict_add_lit v s else zf_push v s)))"

definition isspace :: "u8 \<Rightarrow> bool" where
  "isspace c \<longleftrightarrow> c = 0x20 \<or> (0x09 \<le> c \<and> c \<le> 0x0d)"

definition handle_char :: "nat \<Rightarrow> config \<Rightarrow> u8 \<Rightarrow> machine \<Rightarrow> unit outcome" where
  "handle_char n cfg c s =
     (if input_state s = ZF_INPUT_PASS_CHAR
      then run n cfg (Char c) (s\<lparr>input_state := ZF_INPUT_INTERPRET\<rparr>)
      else if c \<noteq> 0 \<and> \<not> isspace c then
        (if hc_len s < 32 - 1
         then Ret () (s\<lparr>hc_buf := take (hc_len s) (hc_buf s) @ [c], hc_len := hc_len s + 1\<rparr>)
         else Ret () s)
      else
        (if hc_len s > 0 then handle_word n cfg (hc_buf s) (s\<lparr>hc_len := 0\<rparr>)
         else Ret () s))"

section \<open>The VM: initialisation and evaluation\<close>

definition zf_init :: "u32 \<Rightarrow> machine \<Rightarrow> machine" where
  "zf_init enable_trace s =
     (let s = uservar_set ZF_USERVAR_HERE (of_nat (ZF_USERVAR_COUNT * 4)) s;
          s = uservar_set ZF_USERVAR_TRACE enable_trace s;
          s = uservar_set ZF_USERVAR_LATEST 0 s;
          s = s\<lparr>dsp := 0, rsp := 0\<rparr>
      in uservar_set ZF_USERVAR_COMPILING 0 s)"

definition add_prim :: "u8 list \<Rightarrow> u32 \<Rightarrow> machine \<Rightarrow> unit outcome" where
  "add_prim name op s =
     (let imm = (take 1 name = [0x5f]);
          name = (if imm then drop 1 name else name) in
      andThen (create name ZF_FLAG_PRIM s) (\<lambda>_ s.
      andThen (dict_add_op op s) (\<lambda>_ s.
      andThen (dict_add_op PRIM_EXIT_code s) (\<lambda>_ s.
      if imm then make_immediate s else Ret () s))))"

definition add_uservar :: "u8 list \<Rightarrow> zf_addr \<Rightarrow> machine \<Rightarrow> unit outcome" where
  "add_uservar name addr s =
     andThen (create name 0 s) (\<lambda>_ s.
     andThen (dict_add_lit addr s) (\<lambda>_ s.
     dict_add_op PRIM_EXIT_code s))"

definition cstr :: "string \<Rightarrow> u8 list" where
  "cstr str = map of_char str"

definition prim_names :: "u8 list list" where
  "prim_names =
     [cstr ''exit'', cstr ''lit'', cstr ''<0'', cstr '':'', cstr ''_;'', cstr ''+'',
      cstr ''-'', cstr ''*'', cstr ''/'', cstr ''%'', cstr ''drop'', cstr ''dup'',
      cstr ''pickr'', cstr ''_immediate'', cstr ''@@'', cstr ''!!'', cstr ''swap'', cstr ''rot'',
      cstr ''jmp'', cstr ''jmp0'', [0x27], cstr ''_('', cstr ''>r'', cstr ''r>'',
      cstr ''='', cstr ''sys'', cstr ''pick'', cstr '',,'', cstr ''key'', cstr ''lits'',
      cstr ''##'', cstr ''&'', cstr ''|'', cstr ''^'', cstr ''<<'', cstr ''>>'',
      cstr ''.'', cstr ''@D'', cstr ''!D'', cstr ''@T'', cstr ''@V'']"

definition uservar_names :: "u8 list list" where
  "uservar_names = [cstr ''h'', cstr ''latest'', cstr ''trace'', cstr ''compiling'', cstr ''_postpone'']"

fun add_all :: "(u8 list \<Rightarrow> u32 \<Rightarrow> machine \<Rightarrow> unit outcome) \<Rightarrow> u8 list list \<Rightarrow> u32 \<Rightarrow> machine \<Rightarrow> unit outcome" where
  "add_all add [] i s = Ret () s"
| "add_all add (p # ps) i s = andThen (add p i s) (\<lambda>_ s. add_all add ps (i + 1) s)"

definition zf_bootstrap :: "machine \<Rightarrow> unit outcome" where
  "zf_bootstrap s =
     andThen (add_all add_prim prim_names 0 s) (\<lambda>_ s. add_all add_uservar uservar_names 0 s)"

text \<open>
  The argument of \<open>zf_eval\<close> points either to a constant string or into the memory
  surface (\<open>SRC_BUF\<close>), which the program under evaluation can write to: the characters
  are read one at a time from the current state.
\<close>

datatype cptr = Rom "u8 list" | Ram u32

fun deref :: "machine \<Rightarrow> cptr \<Rightarrow> u8" where
  "deref s (Rom []) = 0"
| "deref s (Rom (c # cs)) = c"
| "deref s (Ram a) = sram s a"

fun incr :: "cptr \<Rightarrow> cptr" where
  "incr (Rom cs) = Rom (drop 1 cs)"
| "incr (Ram a) = Ram (a + 1)"

primrec zf_eval_loop :: "nat \<Rightarrow> config \<Rightarrow> cptr \<Rightarrow> machine \<Rightarrow> unit outcome" where
  "zf_eval_loop 0 cfg buf s = OutOfFuel"
| "zf_eval_loop (Suc n) cfg buf s =
     andThen (handle_char n cfg (deref s buf) s) (\<lambda>_ s.
       if deref s buf = 0 then Ret () s else zf_eval_loop n cfg (incr buf) s)"

text \<open>
  \<open>zf_eval\<close>: \<open>setjmp\<close> returns 0 first and the loop runs; an abort comes back to the
  \<open>else\<close> branch with the reason.
\<close>

definition zf_eval :: "nat \<Rightarrow> config \<Rightarrow> cptr \<Rightarrow> machine \<Rightarrow> zf_result outcome" where
  "zf_eval n cfg buf s =
     (case zf_eval_loop n cfg buf s of
        Ret _ s \<Rightarrow> Ret ZF_OK s
      | Abort r s \<Rightarrow> Ret r ((uservar_set ZF_USERVAR_COMPILING 0 s)\<lparr>rsp := 0, dsp := 0\<rparr>)
      | Fault \<Rightarrow> Fault
      | OutOfFuel \<Rightarrow> OutOfFuel)"

definition eval_cmd :: "nat \<Rightarrow> config \<Rightarrow> cptr \<Rightarrow> machine \<Rightarrow> u32 outcome" where
  "eval_cmd n cfg cmd s = andThen (zf_eval n cfg cmd s) (\<lambda>res s. Ret (zf_result_code res) s)"

section \<open>Identity, checksum and transmission (sramplatform.c, main.c)\<close>

text \<open>
  \<open>collect_bid\<close> assembles three 32-bit words from the identifier bytes, most significant
  byte first, and prints them with \<open>%08X%08X%08X\<close> into the \<open>UID_SIZE\<close> bytes of \<open>UID\<close>:
  24 upper-case hexadecimal digits and the terminating NUL.
\<close>

definition be32 :: "u8 \<Rightarrow> u8 \<Rightarrow> u8 \<Rightarrow> u8 \<Rightarrow> u32" where
  "be32 b0 b1 b2 b3 =
     push_bit 24 (ucast b0) + push_bit 16 (ucast b1) + push_bit 8 (ucast b2) + ucast b3"

definition hex_digit :: "u32 \<Rightarrow> u8" where
  "hex_digit d = (if d < 10 then 0x30 + ucast d else 0x41 + (ucast d - 10))"

definition hex8 :: "u32 \<Rightarrow> u8 list" where
  "hex8 w = map (\<lambda>i. hex_digit (drop_bit (4 * (7 - i)) w AND 0xf)) [0..<8]"

definition collect_bid :: "config \<Rightarrow> u8 list" where
  "collect_bid cfg =
     (let hi = uid_bytes_hi cfg; lo = uid_bytes_lo cfg;
          uid0 = be32 (hi ! 0) (hi ! 1) (hi ! 2) (hi ! 3);
          uid1 = be32 (hi ! 4) (hi ! 5) (hi ! 6) (hi ! 7);
          uid2 = be32 (lo ! 0) (lo ! 1) (lo ! 2) (lo ! 3)
      in hex8 uid0 @ hex8 uid1 @ hex8 uid2 @ [0])"

text \<open>The array \<open>UID\<close> once \<open>main\<close> has called \<open>collect_bid(UID)\<close>, before the loop.\<close>

definition UID :: "config \<Rightarrow> u8 list" where
  "UID cfg = collect_bid cfg"

text \<open>
  Modelled from the spec: the macro \<open>STR_MATCH\<close> is missing; "uid matches" means
  byte-equality over \<open>UID_SIZE\<close> bytes with this node's UID.
\<close>

definition STR_MATCH :: "u8 list \<Rightarrow> u8 list \<Rightarrow> bool" where
  "STR_MATCH a b \<longleftrightarrow> take UID_SIZE a = take UID_SIZE b"

text \<open>\<open>strcpy\<close> copies up to and including the first NUL of the source.\<close>

definition strcpy :: "u8 list \<Rightarrow> u8 list \<Rightarrow> u8 list" where
  "strcpy dst src =
     (let n = length (takeWhile (\<lambda>c. c \<noteq> 0) src) + 1 in take n src @ drop n dst)"

primrec crc16 :: "config \<Rightarrow> u16 \<Rightarrow> u8 list \<Rightarrow> u16" where
  "crc16 cfg crc [] = crc"
| "crc16 cfg crc (b # bs) = crc16 cfg (crc16_byte cfg crc b) bs"

text \<open>
  Modelled from the spec: the declaration of \<open>packet_t\<close> is missing.  \<open>make_crc\<close>
  "serializes the packet": the bytes of a packet object in memory are its wire image,
  the fields in the order of the wire format with no padding between them.
\<close>

definition packet_image :: "config \<Rightarrow> packet_t \<Rightarrow> u8 list" where
  "packet_image cfg p = packet_bytes cfg p"

text \<open>
  \<open>make_crc\<close> copies \<open>PACKET_SIZE\<close> bytes of the packet object into the buffer it is
  given (always the global \<open>buffer\<close>), clears the last two and returns their CRC.
\<close>

definition make_crc :: "config \<Rightarrow> machine \<Rightarrow> u16 \<times> machine" where
  "make_crc cfg s =
     (let b = (take (PACKET_SIZE cfg) (packet_image cfg (packet s)))
                [PACKET_SIZE cfg - 2 := 0, PACKET_SIZE cfg - 1 := 0]
      in (crc16 cfg 0 b, s\<lparr>buffer := b\<rparr>))"

text \<open>The statement \<open>packet.checksum = make_crc(&packet, buffer)\<close>.\<close>

definition set_checksum :: "config \<Rightarrow> machine \<Rightarrow> machine" where
  "set_checksum cfg s =
     (let r = make_crc cfg s in (snd r)\<lparr>packet := (packet (snd r))\<lparr>checksum := fst r\<rparr>\<rparr>)"

definition send_packet :: "config \<Rightarrow> uart \<Rightarrow> machine \<Rightarrow> machine" where
  "send_packet cfg u s = s\<lparr>trace := trace s @ [Transmit u (packet_bytes cfg (packet s))]\<rparr>"

definition send_buffer :: "uart \<Rightarrow> u8 list \<Rightarrow> machine \<Rightarrow> machine" where
  "send_buffer u b s = s\<lparr>trace := trace s @ [Transmit u b]\<rparr>"

text \<open>
  Modelled from the spec: the macros \<open>RESET_UPWARDS\<close> and \<open>RESET_DOWNWARDS\<close> are
  missing; \<open>RESET_UP\<close> and \<open>RESET_DOWN\<close> re-arm the receive on the respective link.
\<close>

definition RESET_UPWARDS :: "machine \<Rightarrow> machine" where
  "RESET_UPWARDS s = s\<lparr>trace := trace s @ [Rearm huart1]\<rparr>"

definition RESET_DOWNWARDS :: "machine \<Rightarrow> machine" where
  "RESET_DOWNWARDS s = s\<lparr>trace := trace s @ [Rearm huart3]\<rparr>"

text \<open>The receive-complete callback: bytes from below go up as they are.\<close>

definition HAL_UART_RxCpltCallback :: "config \<Rightarrow> uart \<Rightarrow> int \<Rightarrow> machine \<Rightarrow> machine" where
  "HAL_UART_RxCpltCallback cfg u RxXferSize s =
     (case u of
        huart1 \<Rightarrow> s\<lparr>bytes_rx := bytes_rx s + RxXferSize\<rparr>
      | huart3 \<Rightarrow> RESET_DOWNWARDS (send_buffer huart1 (transport_buffer s) s))"

section \<open>The main loop (main.c)\<close>

definition sram_size :: "config \<Rightarrow> u32" where
  "sram_size cfg = g_pfnVectors0 cfg - SRAM_START"

text \<open>
  The assignments \<open>packet.data[0] = ...\<close>, \<open>packet.data[1] = ...\<close> of the SENSORS case:
  consecutive bytes from index 0, inside the array when there are at most \<open>DATA_SIZE\<close>.
\<close>

definition fill_data :: "config \<Rightarrow> u8 list \<Rightarrow> machine \<Rightarrow> unit outcome" where
  "fill_data cfg bs s =
     (if length bs \<le> DATA_SIZE cfg
      then Ret () (s\<lparr>packet := (packet s)\<lparr>data := bs @ drop (length bs) (data (packet s))\<rparr>\<rparr>)
      else Fault)"

text \<open>The reply that ends the local cases: command ACK, fresh checksum, up, re-arm.\<close>

definition ack_up :: "config \<Rightarrow> machine \<Rightarrow> machine" where
  "ack_up cfg s =
     RESET_UPWARDS (send_packet cfg huart1
       (set_checksum cfg (s\<lparr>packet := (packet s)\<lparr>command := ACK cfg\<rparr>\<rparr>)))"

text \<open>The branch taken by the addressed commands when the UID is not this node's.\<close>

definition forward_down :: "config \<Rightarrow> machine \<Rightarrow> machine" where
  "forward_down cfg s =
     RESET_UPWARDS (RESET_DOWNWARDS (send_packet cfg huart3 (set_checksum cfg s)))"

text \<open>The \<open>switch (packet.command)\<close> of the loop body; \<open>temp\<close> and \<open>vdd\<close> are its locals.\<close>

definition dispatch :: "nat \<Rightarrow> config \<Rightarrow> u16 \<Rightarrow> u16 \<Rightarrow> machine \<Rightarrow> unit outcome" where
  "dispatch n cfg temp vdd s =
     (let p = packet s; local = STR_MATCH (UID cfg) (uid p) in
      if command p = PING cfg then
        (if options p = OWN cfg then
           (if local then
              Ret () (RESET_UPWARDS (send_packet cfg huart1 (set_checksum cfg
                (s\<lparr>packet := p\<lparr>options := sram_size cfg, command := ACK cfg\<rparr>\<rparr>))))
            else Ret () (RESET_UPWARDS (RESET_DOWNWARDS (send_packet cfg huart3 s))))
         else if options p = ALL_opt cfg then
           (let s = s\<lparr>packet := p\<lparr>uid := strcpy (uid p) (UID cfg),
                                    options := sram_size cfg, command := ACK cfg\<rparr>\<rparr>;
                s = RESET_UPWARDS (send_packet cfg huart1 (set_checksum cfg s));
                s = s\<lparr>packet := (packet s)\<lparr>command := PING cfg, options := ALL_opt cfg\<rparr>\<rparr>
            in Ret () (RESET_DOWNWARDS (send_packet cfg huart3 (set_checksum cfg s))))
         else Ret () s)
      else if command p = READ cfg then
        (if \<not> local then Ret () (forward_down cfg s)
         else
           (let s = s\<lparr>packet := p\<lparr>command := ACK cfg\<rparr>\<rparr>;
                s = s\<lparr>packet := (packet s)\<lparr>data := read_sram cfg (options p) s\<rparr>\<rparr>
            in Ret () (RESET_UPWARDS (send_packet cfg huart1 (set_checksum cfg s)))))
      else if command p = WRITE cfg then
        (if \<not> local then Ret () (forward_down cfg s)
         else Ret () (ack_up cfg (write_sram cfg (options p) (data p) s)))
      else if command p = SENSORS cfg then
        (if \<not> local then Ret () (forward_down cfg s)
         else
           andThen
             (if options p = ALL_opt cfg then
                fill_data cfg (le16 (temp110_cal cfg) @ le16 (temp30_cal cfg) @ le16 temp
                                 @ le16 (vdd_cal cfg) @ le16 vdd) s
              else if options p = TEMP cfg then
                fill_data cfg (le16 (temp110_cal cfg) @ le16 (temp30_cal cfg) @ le16 temp) s
              else if options p = VDD cfg then
                fill_data cfg (le16 (vdd_cal cfg) @ le16 vdd) s
              else Ret () s)
             (\<lambda>_ s. Ret () (ack_up cfg s)))
      else if command p = LOAD cfg then
        (if local then
           Ret () (ack_up cfg
             (s\<lparr>sram := mem_write (sram s) (SRC_BUF cfg + of_nat (DATA_SIZE cfg) * options p)
                                  (take (DATA_SIZE cfg) (data p))\<rparr>))
         else Ret () (forward_down cfg s))
      else if command p = EXEC cfg then
        (if local then
           (let s = (if options p = 1 then s\<lparr>write_pos := 0\<rparr> else s) in
            andThen (eval_cmd n cfg (Ram (SRC_BUF cfg)) s) (\<lambda>r s.
              Ret () (ack_up cfg (s\<lparr>packet := (packet s)\<lparr>options := r\<rparr>\<rparr>))))
         else Ret () (forward_down cfg s))
      else if command p = RETR cfg then
        (if local then
           Ret () (ack_up cfg
             (s\<lparr>packet := p\<lparr>data := mem_read (sram s)
                                       (WRITE_BUF cfg + 4 * (of_nat (DATA_SIZE cfg) * options p))
                                       (DATA_SIZE cfg)\<rparr>\<rparr>))
         else Ret () (forward_down cfg s))
      else
        Ret () (RESET_UPWARDS (send_packet cfg huart1 (set_checksum cfg s))))"

text \<open>
  One turn of \<open>while (1)\<close>.  After the reply to a checksum mismatch the code has no
  \<open>continue\<close>: control goes on into the \<open>switch\<close>.
\<close>

definition main_loop :: "nat \<Rightarrow> config \<Rightarrow> machine \<Rightarrow> unit outcome" where
  "main_loop n cfg s =
     (if bytes_rx s < int (PACKET_SIZE cfg) then Ret () s
      else
        let s = s\<lparr>bytes_rx := 0\<rparr>;
            temp = (ucast (sensors0 s) :: u16);
            vdd = (ucast (sensors1 s) :: u16);
            s = s\<lparr>packet := parse_packet cfg (buffer s)\<rparr>;
            s = s\<lparr>packet := (packet s)\<lparr>pic := pic (packet s) + 1\<rparr>\<rparr>;
            s = s\<lparr>buffer := (buffer s)[PACKET_SIZE cfg - 2 := 0, PACKET_SIZE cfg - 1 := 0]\<rparr>;
            s = s\<lparr>checksum_var := crc16 cfg 0 (buffer s)\<rparr>;
            s = (if checksum_var s \<noteq> checksum (packet s) then
                   RESET_UPWARDS (send_packet cfg huart1 (set_checksum cfg
                     (s\<lparr>packet := (packet s)\<lparr>command := ERR cfg, options := 1\<rparr>\<rparr>)))
                 else s)
        in dispatch n cfg temp vdd s)"

section \<open>A concrete node for the examples\<close>

text \<open>
  The theorems below hold for every configuration.  Their examples use this one:
  31 payload bytes (a packet of 64 bytes), a byte sum in the place of the CRC step, and
  some values for the tags, the chip data and the identifier bytes.
\<close>

definition demo_config :: config where
  "demo_config =
     \<lparr> DATA_SIZE = 31, crc16_byte = (\<lambda>crc b. crc + ucast b),
       PING = 1, READ = 2, WRITE = 3, SENSORS = 4, LOAD = 5, EXEC = 6, RETR = 7, ACK = 8, ERR = 9,
       OWN = 0, ALL_opt = 1, TEMP = 2, VDD = 3,
       g_pfnVectors0 = 0x20008000, vdd_cal = 0x5f1, temp30_cal = 0x2a0, temp110_cal = 0x35c,
       uid_bytes_hi = [0x00, 0x1a, 0x2b, 0x3c, 0x4d, 0x5e, 0x6f, 0x70],
       uid_bytes_lo = [0x81, 0x92, 0xa3, 0xb4] \<rparr>"

text \<open>Static storage before \<open>main\<close> runs: all zero.\<close>

definition zero_packet :: packet_t where
  "zero_packet =
     \<lparr> command = 0, pic = 0, options = 0, uid = replicate 25 0, data = replicate 31 0,
       checksum = 0 \<rparr>"

definition zero_machine :: machine where
  "zero_machine =
     \<lparr> dict = (\<lambda>_. 0), dstack = (\<lambda>_. 0), rstack = (\<lambda>_. 0),
       input_state = ZF_INPUT_INTERPRET, dsp = 0, rsp = 0, ip = 0, hc_buf = [], hc_len = 0,
       sram = (\<lambda>_. 0), write_pos = 0, sensors0 = 0, sensors1 = 0,
       packet = zero_packet, buffer = replicate 64 0, transport_buffer = replicate 64 0,
       bytes_rx = 0, checksum_var = 0, trace = [] \<rparr>"

text \<open>
  The frame a sender puts on the wire for a packet: checksum by \<open>make_crc\<close>, bytes by
  \<open>send_packet\<close>.
\<close>

definition frame :: "config \<Rightarrow> packet_t \<Rightarrow> u8 list" where
  "frame cfg p =
     packet_bytes cfg
       (p\<lparr>checksum := crc16 cfg 0
            ((packet_bytes cfg p)[PACKET_SIZE cfg - 2 := 0, PACKET_SIZE cfg - 1 := 0])\<rparr>)"

definition demo_packet :: packet_t where
  "demo_packet =
     \<lparr> command = 2, pic = 0, options = 7, uid = cstr ''0123456789ABCDEF01234567'' @ [0],
       data = map of_nat [0..<31], checksum = 0 \<rparr>"

text \<open>The example node when the frame of a packet has arrived on the up-link.\<close>

definition demo_input :: "packet_t \<Rightarrow> machine" where
  "demo_input p = zero_machine\<lparr>buffer := frame demo_config p, bytes_rx := 64\<rparr>"

definition demo_ping :: packet_t where
  "demo_ping =
     \<lparr> command = 1, pic = 0, options = 1, uid = replicate 25 0, data = replicate 31 0,
       checksum = 0 \<rparr>"

text \<open>Packets addressed to the example node itself.\<close>

definition demo_sensors :: packet_t where
  "demo_sensors =
     \<lparr> command = 4, pic = 0, options = 1, uid = cstr ''001A2B3C4D5E6F708192A3B4'' @ [0],
       data = replicate 31 0, checksum = 0 \<rparr>"

definition demo_corrupt :: machine where
  "demo_corrupt =
     zero_machine\<lparr>buffer := (frame demo_config demo_sensors)[31 := 1], bytes_rx := 64\<rparr>"

text \<open>
  Above: the frame of a SENSORS request in which the first payload byte has changed on
  the wire.  Below: a RETR request for block 1, while every byte of the memory surface
  holds the low eight bits of its own address.
\<close>

definition demo_retr :: packet_t where
  "demo_retr =
     \<lparr> command = 7, pic = 0, options = 1, uid = cstr ''001A2B3C4D5E6F708192A3B4'' @ [0],
       data = replicate 31 0, checksum = 0 \<rparr>"

definition demo_retr_input :: machine where
  "demo_retr_input = (demo_input demo_retr)\<lparr>sram := (\<lambda>a. ucast a)\<rparr>"

text \<open>
  A data stack holding 77, 3, 99 (top); a stack holding 42 with the output cursor on
  the last cell of the result buffer; an EXEC request with options 1 arriving while the
  cursor is 5.
\<close>

definition demo_stack3 :: machine where
  "demo_stack3 = zero_machine\<lparr>dstack := (\<lambda>_. 0)(0 := 77, 1 := 3, 2 := 99), dsp := 3\<rparr>"

definition demo_emit :: machine where
  "demo_emit = zero_machine\<lparr>dstack := (\<lambda>_. 0)(0 := 42), dsp := 1, write_pos := 30\<rparr>"

definition demo_exec :: packet_t where
  "demo_exec =
     \<lparr> command = 6, pic = 0, options = 1, uid = cstr ''001A2B3C4D5E6F708192A3B4'' @ [0],
       data = replicate 31 0, checksum = 0 \<rparr>"

definition demo_exec_input :: machine where
  "demo_exec_input = (demo_input demo_exec)\<lparr>write_pos := 5\<rparr>"

text \<open>A VM after \<open>zf_init(0)\<close> whose dictionary holds one word, the primitive \<open>/\<close>.\<close>

definition div_machine :: machine where
  "div_machine =
     (case add_prim (cstr ''/'') 8 (zf_init 0 zero_machine) of
        Ret _ s \<Rightarrow> s | _ \<Rightarrow> zero_machine)"

text \<open>
  The reasons an outcome can abort with are inside a given set; the reasons that do not
  come from a boundary check.
\<close>

fun aborts_within :: "zf_result set \<Rightarrow> 'a outcome \<Rightarrow> bool" where
  "aborts_within A (Abort r s) = (r \<in> A)"
| "aborts_within A (Ret v s) = True"
| "aborts_within A Fault = True"
| "aborts_within A OutOfFuel = True"

definition unchecked_reasons :: "zf_result set" where
  "unchecked_reasons =
     {ZF_ABORT_INTERNAL_ERROR, ZF_ABORT_NOT_A_WORD, ZF_ABORT_INVALID_SIZE, ZF_ABORT_DIVISION_BY_ZERO}"

abbreviation aw :: "'a outcome \<Rightarrow> bool" where
  "aw \<equiv> aborts_within unchecked_reasons"

text \<open>
  The state in which the loop body compares the checksums: the counter cleared, the
  packet parsed and its hop counter incremented, the checksum bytes of the buffer
  cleared, the CRC of the buffer computed.
\<close>

definition received :: "config \<Rightarrow> machine \<Rightarrow> machine" where
  "received cfg s =
     s\<lparr>bytes_rx := 0,
       packet := (parse_packet cfg (buffer s))\<lparr>pic := pic (parse_packet cfg (buffer s)) + 1\<rparr>,
       buffer := (buffer s)[PACKET_SIZE cfg - 2 := 0, PACKET_SIZE cfg - 1 := 0],
       checksum_var := crc16 cfg 0 ((buffer s)[PACKET_SIZE cfg - 2 := 0, PACKET_SIZE cfg - 1 := 0])\<rparr>"

text \<open>A packet has arrived whole, and its checksum field is the CRC the node computes.\<close>

definition packet_arrived :: "config \<Rightarrow> machine \<Rightarrow> bool" where
  "packet_arrived cfg s \<longleftrightarrow>
     int (PACKET_SIZE cfg) \<le> bytes_rx s \<and> length (buffer s) = PACKET_SIZE cfg"

definition checksum_ok :: "config \<Rightarrow> machine \<Rightarrow> bool" where
  "checksum_ok cfg s \<longleftrightarrow>
     crc16 cfg 0 ((buffer s)[PACKET_SIZE cfg - 2 := 0, PACKET_SIZE cfg - 1 := 0])
       = checksum (parse_packet cfg (buffer s))"

section \<open>Packet codec: properties\<close>

lemma of_le32_le32:
  "push_bit 24 (ucast (ucast (drop_bit 24 w :: u32) :: u8)) OR
   push_bit 16 (ucast (ucast (drop_bit 16 w) :: u8)) OR
   push_bit 8 (ucast (ucast (drop_bit 8 w) :: u8)) OR ucast (ucast w :: u8) = w"
proof (rule bit_word_eqI)
  fix n :: nat
  assume "n < LENGTH(32)"
  then have n: "n < 32" by simp
  consider "n < 8" | "8 \<le> n" "n < 16" | "16 \<le> n" "n < 24" | "24 \<le> n"
    by linarith
  then show "bit (push_bit 24 (ucast (ucast (drop_bit 24 w) :: u8)) OR
                  push_bit 16 (ucast (ucast (drop_bit 16 w) :: u8)) OR
                  push_bit 8 (ucast (ucast (drop_bit 8 w) :: u8)) OR
                  ucast (ucast w :: u8) :: u32) n = bit w n"
    using n by cases (auto simp: bit_simps)
qed

lemma of_le16_le16:
  "push_bit 8 (ucast (ucast (drop_bit 8 w :: u16) :: u8)) OR ucast (ucast w :: u8) = w"
proof (rule bit_word_eqI)
  fix n :: nat
  assume "n < LENGTH(16)"
  then have n: "n < 16" by simp
  consider "n < 8" | "8 \<le> n"
    by linarith
  then show "bit (push_bit 8 (ucast (ucast (drop_bit 8 w) :: u8)) OR
                  ucast (ucast w :: u8) :: u16) n = bit w n"
    using n by cases (auto simp: bit_simps)
qed

lemma length_packet_bytes:
  "wf_packet cfg p \<Longrightarrow> length (packet_bytes cfg p) = PACKET_SIZE cfg"
  by (simp add: wf_packet_def packet_bytes_def PACKET_SIZE_def le32_def le16_def UID_SIZE_def)

lemma parse_packet_bytes:
  assumes "wf_packet cfg p"
  shows "parse_packet cfg (packet_bytes cfg p) = p"
proof -
  have u: "length (uid p) = 25" and d: "length (data p) = DATA_SIZE cfg"
    using assms by (simp_all add: wf_packet_def UID_SIZE_def)
  have o: "options (parse_packet cfg (packet_bytes cfg p)) = options p"
    using of_le32_le32 [of "options p"]
    by (simp add: parse_packet_def packet_bytes_def le32_def)
  have c: "checksum (parse_packet cfg (packet_bytes cfg p)) = checksum p"
    using of_le16_le16 [of "checksum p"] u d
    by (simp add: parse_packet_def packet_bytes_def le32_def le16_def PACKET_SIZE_def
        UID_SIZE_def nth_append)
  show ?thesis
    using o c u d
    by (intro packet_t.equality)
      (simp_all add: parse_packet_def packet_bytes_def le32_def UID_SIZE_def)
qed

lemma wf_demo_packet: "wf_packet demo_config demo_packet"
  by (simp add: wf_packet_def demo_config_def demo_packet_def UID_SIZE_def cstr_def)

text \<open>
  Claim C7.  For every packet record with arrays of the declared lengths, \<open>send_packet\<close>
  puts on the wire command (1 byte), pic (1), options (4, little-endian), uid (25), data
  (\<open>DATA_SIZE\<close>) and checksum (2, little-endian) in this order, and \<open>parse_packet\<close> of these
  bytes gives back the fields command, pic, options, uid and data.
\<close>

theorem parse_send_roundtrip:
  assumes "wf_packet cfg (packet s)"
  shows "\<exists>bs. trace (send_packet cfg u s) = trace s @ [Transmit u bs] \<and>
           bs = [command (packet s), pic (packet s)] @ le32 (options (packet s))
                  @ uid (packet s) @ data (packet s) @ le16 (checksum (packet s)) \<and>
           command (parse_packet cfg bs) = command (packet s) \<and>
           pic (parse_packet cfg bs) = pic (packet s) \<and>
           options (parse_packet cfg bs) = options (packet s) \<and>
           uid (parse_packet cfg bs) = uid (packet s) \<and>
           data (parse_packet cfg bs) = data (packet s)"
proof -
  have "packet_bytes cfg (packet s) =
          [command (packet s), pic (packet s)] @ le32 (options (packet s))
            @ uid (packet s) @ data (packet s) @ le16 (checksum (packet s))"
    using assms by (simp add: packet_bytes_def wf_packet_def)
  moreover have "parse_packet cfg (packet_bytes cfg (packet s)) = packet s"
    using assms by (rule parse_packet_bytes)
  ultimately show ?thesis
    by (simp add: send_packet_def)
qed

theorem parse_send_roundtrip_witness:
  "wf_packet demo_config demo_packet \<and>
   (\<exists>bs. trace (send_packet demo_config huart1 (zero_machine\<lparr>packet := demo_packet\<rparr>))
            = [Transmit huart1 bs] \<and>
          command (parse_packet demo_config bs) = 2 \<and>
          pic (parse_packet demo_config bs) = 0 \<and>
          options (parse_packet demo_config bs) = 7 \<and>
          uid (parse_packet demo_config bs) = uid demo_packet \<and>
          data (parse_packet demo_config bs) = data demo_packet)"
  using parse_send_roundtrip [of demo_config "zero_machine\<lparr>packet := demo_packet\<rparr>" huart1]
    wf_demo_packet
  by (simp add: zero_machine_def demo_packet_def)

section \<open>The VM: cells in the dictionary, properties\<close>

lemma unat_Suc_addr: "unat (a :: u32) < ZF_DICT_SIZE \<Longrightarrow> unat (a + 1) = unat a + 1"
  by (simp add: ZF_DICT_SIZE_def unat_word_ariths)

lemma put_bytes_bound:
  "put_bytes d a bs = Some d' \<Longrightarrow> bs \<noteq> [] \<Longrightarrow> unat a + length bs \<le> ZF_DICT_SIZE"
proof (induction bs arbitrary: d a)
  case Nil
  then show ?case by simp
next
  case (Cons b bs)
  then have a: "unat a < ZF_DICT_SIZE" and p: "put_bytes (d(unat a := b)) (a + 1) bs = Some d'"
    by (simp_all split: if_splits)
  show ?case
  proof (cases "bs = []")
    case True
    with a show ?thesis by simp
  next
    case False
    from Cons.IH [OF p False] unat_Suc_addr [OF a] show ?thesis by simp
  qed
qed

lemma put_bytes_eq:
  "unat a + length bs \<le> ZF_DICT_SIZE \<Longrightarrow>
   put_bytes d a bs =
     Some (\<lambda>i. if unat a \<le> i \<and> i < unat a + length bs then bs ! (i - unat a) else d i)"
proof (induction bs arbitrary: d a)
  case Nil
  then show ?case by (auto simp: fun_eq_iff)
next
  case (Cons b bs)
  then have a: "unat a < ZF_DICT_SIZE" by simp
  have s: "unat (a + 1) = unat a + 1" using a by (rule unat_Suc_addr)
  have "unat (a + 1) + length bs \<le> ZF_DICT_SIZE" using Cons.prems s by simp
  from Cons.IH [OF this, of "d(unat a := b)"]
  have IH: "put_bytes (d(unat a := b)) (a + 1) bs =
      Some (\<lambda>i. if unat (a + 1) \<le> i \<and> i < unat (a + 1) + length bs
                then bs ! (i - unat (a + 1)) else (d(unat a := b)) i)" .
  have eq: "(\<lambda>i. if unat (a + 1) \<le> i \<and> i < unat (a + 1) + length bs
                then bs ! (i - unat (a + 1)) else (d(unat a := b)) i) =
            (\<lambda>i. if unat a \<le> i \<and> i < unat a + length (b # bs)
                then (b # bs) ! (i - unat a) else d i)"
  proof (rule ext)
    fix i
    have "i - unat a = Suc (i - Suc (unat a))" if "Suc (unat a) \<le> i"
      using that by simp
    then show "(if unat (a + 1) \<le> i \<and> i < unat (a + 1) + length bs
                then bs ! (i - unat (a + 1)) else (d(unat a := b)) i) =
               (if unat a \<le> i \<and> i < unat a + length (b # bs)
                then (b # bs) ! (i - unat a) else d i)"
      by (auto simp: s)
  qed
  have "put_bytes d a (b # bs) = put_bytes (d(unat a := b)) (a + 1) bs"
    using a by simp
  then show ?case
    by (simp only: IH eq)
qed

lemma get_bytes_eq:
  "unat a + n \<le> ZF_DICT_SIZE \<Longrightarrow> get_bytes d a n = Some (map (\<lambda>i. d (unat a + i)) [0..<n])"
proof (induction n arbitrary: a)
  case 0
  then show ?case by simp
next
  case (Suc n)
  then have a: "unat a < ZF_DICT_SIZE" by simp
  have s: "unat (a + 1) = unat a + 1" using a by (rule unat_Suc_addr)
  have "unat (a + 1) + n \<le> ZF_DICT_SIZE" using Suc.prems s by simp
  from Suc.IH [OF this] a s show ?case
    by (simp add: upt_rec [of 0 "Suc n"] map_Suc_upt [symmetric] del: upt_Suc)
qed

lemma small_bits:
  fixes v :: u32
  assumes "v < 2 ^ k"
  shows "bit v n \<Longrightarrow> n < k"
proof -
  assume b: "bit v n"
  have "take_bit k v = v"
    using assms by (simp add: less_mask_eq take_bit_eq_mask)
  then have "bit (take_bit k v) n" using b by simp
  then show "n < k" by (simp add: bit_simps)
qed

lemma var1_flag:
  fixes v :: u32
  assumes "v < 128"
  shows "(ucast v :: u8) AND 0x80 = 0"
proof (rule bit_word_eqI)
  fix n assume "n < LENGTH(8)"
  have "(128 :: u8) = 2 ^ 7" by simp
  then have "bit (128 :: u8) n \<longleftrightarrow> n = 7"
    by (simp only: bit_exp_iff) auto
  moreover have "bit v m \<Longrightarrow> m < 7" for m
    using small_bits [of v 7 m] assms by simp
  ultimately show "bit ((ucast v :: u8) AND 0x80) n = bit (0 :: u8) n"
    by (auto simp: bit_simps)
qed

lemma var1_val:
  fixes v :: u32
  assumes "v < 128"
  shows "ucast (ucast v :: u8) = v"
proof (rule bit_word_eqI)
  fix n assume "n < LENGTH(32)"
  have "bit v n \<Longrightarrow> n < 7"
    using small_bits [of v 7 n] assms by simp
  then show "bit (ucast (ucast v :: u8) :: u32) n = bit v n"
    by (auto simp: bit_simps)
qed

lemma bit_int_128: "bit (128 :: int) n \<longleftrightarrow> n = 7"
proof -
  have "(128 :: int) = 2 ^ 7" by simp
  then show ?thesis by (simp only: bit_exp_iff) auto
qed

lemma bit_int_63: "bit (63 :: int) n \<longleftrightarrow> n < 6"
proof -
  have "(63 :: int) = mask 6" by (simp add: mask_eq_exp_minus_1)
  then show ?thesis by (simp only: bit_mask_iff) auto
qed

lemma bit_int_255: "bit (255 :: int) n \<longleftrightarrow> n < 8"
proof -
  have "(255 :: int) = mask 8" by (simp add: mask_eq_exp_minus_1)
  then show ?thesis by (simp only: bit_mask_iff) auto
qed

lemma bit_0x80: "bit (0x80 :: u8) n \<longleftrightarrow> n = 7"
proof -
  have "(128 :: u8) = 2 ^ 7" by simp
  then show ?thesis by (simp only: bit_exp_iff) auto
qed

lemma bit_0x3f: "bit (0x3f :: u8) n \<longleftrightarrow> n < 6"
proof -
  have "(0x3f :: u8) = mask 6" by (simp add: mask_eq_exp_minus_1)
  then show ?thesis by (simp only: bit_mask_iff) auto
qed

lemma bit_0xff: "bit (0xff :: u8) n \<longleftrightarrow> n < 8"
proof -
  have "(0xff :: u8) = mask 8" by (simp add: mask_eq_exp_minus_1)
  then show ?thesis by (simp only: bit_mask_iff) auto
qed

lemma var2_flag:
  fixes v :: u32
  shows "(ucast (drop_bit 8 v) OR 0x80 :: u8) AND 0x80 \<noteq> 0"
proof
  assume "(ucast (drop_bit 8 v) OR 0x80 :: u8) AND 0x80 = 0"
  then have "bit ((ucast (drop_bit 8 v) OR 0x80 :: u8) AND 0x80) 7 = bit (0 :: u8) 7" by simp
  then show False by (simp add: bit_simps bit_0x80)
qed

lemma var2_not_ff:
  fixes v :: u32
  assumes "v < 16384"
  shows "(ucast (drop_bit 8 v) OR 0x80 :: u8) \<noteq> 0xff"
proof
  assume e: "(ucast (drop_bit 8 v) OR 0x80 :: u8) = 0xff"
  have "bit v m \<Longrightarrow> m < 14" for m
    using small_bits [of v 14 m] assms by simp
  then have "\<not> bit v 14" by blast
  moreover have "bit (ucast (drop_bit 8 v) OR 0x80 :: u8) 6 = bit (0xff :: u8) 6" using e by simp
  ultimately show False by (simp add: bit_simps bit_0x80 bit_0xff)
qed

lemma var2_val:
  fixes v :: u32
  assumes "v < 16384"
  shows "push_bit 8 (ucast ((ucast (drop_bit 8 v) OR 0x80 :: u8) AND 0x3f)) + ucast (ucast v :: u8) = v"
proof -
  have sm: "bit v m \<Longrightarrow> m < 14" for m
    using small_bits [of v 14 m] assms by simp
  have "push_bit 8 (ucast ((ucast (drop_bit 8 v) OR 0x80 :: u8) AND 0x3f)) + (ucast (ucast v :: u8) :: u32)
      = push_bit 8 (ucast ((ucast (drop_bit 8 v) OR 0x80 :: u8) AND 0x3f)) OR (ucast (ucast v :: u8) :: u32)"
    by (rule disjunctive_add_eq_or) (rule bit_word_eqI, auto simp: bit_simps)
  also have "\<dots> = v"
  proof (rule bit_word_eqI)
    fix n assume "n < LENGTH(32)"
    consider "n < 8" | "8 \<le> n" "n < 14" | "14 \<le> n" by linarith
    then show "bit (push_bit 8 (ucast ((ucast (drop_bit 8 v) OR 0x80 :: u8) AND 0x3f)) OR (ucast (ucast v :: u8) :: u32)) n = bit v n"
      using sm [of n] by cases (auto simp: bit_simps bit_int_128 bit_int_63)
  qed
  finally show ?thesis .
qed

lemma u8_val: "ucast (ucast (v :: u32) :: u8) = (take_bit 8 v :: u32)"
  by (rule bit_word_eqI) (auto simp: bit_simps)

lemma s8_val: "scast (ucast (v :: u32) :: u8) = (signed_take_bit 7 v :: u32)"
  by (rule bit_word_eqI) (auto simp: bit_simps min_def)

lemma u16_val: "ucast (push_bit 8 (ucast (ucast (drop_bit 8 (ucast (v :: u32) :: u16)) :: u8)) OR ucast (ucast (ucast v :: u16) :: u8) :: u16) = (take_bit 16 v :: u32)"
  by (rule bit_word_eqI) (auto simp: bit_simps)

lemma s16_val: "scast (push_bit 8 (ucast (ucast (drop_bit 8 (ucast (v :: u32) :: u16)) :: u8)) OR ucast (ucast (ucast v :: u16) :: u8) :: u16) = (signed_take_bit 15 v :: u32)"
  by (rule bit_word_eqI) (auto simp: bit_simps min_def)


lemma dict_put_bytes_get:
  assumes "dict_put_bytes a bs s = Ret n s'" and "bs \<noteq> []" and "k \<le> length bs"
  shows "n = of_nat (length bs) \<and> dict_get_bytes a k s' = Ret (take k bs) s'"
proof -
  from assms(1) obtain d' where p: "put_bytes (dict s) a bs = Some d'"
    and n: "n = of_nat (length bs)" and s': "s' = s\<lparr>dict := d'\<rparr>"
    by (auto simp: dict_put_bytes_def split: option.splits)
  have b: "unat a + length bs \<le> ZF_DICT_SIZE"
    using p assms(2) by (rule put_bytes_bound)
  have d': "d' = (\<lambda>i. if unat a \<le> i \<and> i < unat a + length bs then bs ! (i - unat a) else dict s i)"
    using put_bytes_eq [OF b, of "dict s"] p by simp
  have "unat a + k \<le> ZF_DICT_SIZE" using b assms(3) by simp
  then have "get_bytes d' a k = Some (map (\<lambda>i. d' (unat a + i)) [0..<k])"
    by (rule get_bytes_eq)
  also have "map (\<lambda>i. d' (unat a + i)) [0..<k] = take k bs"
    using assms(3) by (auto simp: d' list_eq_iff_nth_eq)
  finally show ?thesis
    by (simp add: n s' dict_get_bytes_def)
qed

lemma dict_put_byte_get2:
  assumes "dict_put_bytes a [b] s = Ret n s'" and "unat a + 2 \<le> ZF_DICT_SIZE"
  shows "\<exists>c. dict_get_bytes a 2 s' = Ret [b, c] s'"
proof -
  from assms(1) obtain d' where p: "put_bytes (dict s) a [b] = Some d'"
    and s': "s' = s\<lparr>dict := d'\<rparr>"
    by (auto simp: dict_put_bytes_def split: option.splits)
  have "unat a + length [b] \<le> ZF_DICT_SIZE" using assms(2) by simp
  from put_bytes_eq [OF this, of "dict s"] p
  have d': "d' = (\<lambda>i. if unat a \<le> i \<and> i < unat a + length [b] then [b] ! (i - unat a) else dict s i)"
    by simp
  have "get_bytes d' a 2 = Some (map (\<lambda>i. d' (unat a + i)) [0..<2])"
    using assms(2) by (rule get_bytes_eq)
  moreover have "[0..<2] = [0, Suc 0]"
    by (simp add: numeral_2_eq_2)
  ultimately show ?thesis
    by (simp add: s' dict_get_bytes_def d')
qed

lemma andThen_Ret [simp]: "andThen (Ret v s) f = f v s"
  by (simp add: andThen_def)

lemma andThen_RetD:
  "andThen m f = Ret v s \<Longrightarrow> \<exists>w t. m = Ret w t \<and> f w t = Ret v s"
  by (cases m) (simp_all add: andThen_def)

lemma of_le32_le32': "of_le32 (ucast w) (ucast (drop_bit 8 w)) (ucast (drop_bit 16 w)) (ucast (drop_bit 24 w)) = w"
  using of_le32_le32 [of w] by (simp add: of_le32_def)

lemma var5:
  assumes "andThen (dict_put_bytes (a + 0) [0xff] s) (\<lambda>n1 s.
          andThen (dict_put_bytes (a + 1) (le32 v) s) (\<lambda>n2 s. Ret (n1 + n2) s)) = Ret n s'"
  shows "n = 5 \<and> (\<exists>c. dict_get_bytes a 2 s' = Ret [0xff, c] s') \<and>
         dict_get_bytes (a + 1) 4 s' = Ret (le32 v) s'"
proof -
  from andThen_RetD [OF assms] obtain n1 s1 where
    p1: "dict_put_bytes a [0xff] s = Ret n1 s1" and
    r: "andThen (dict_put_bytes (a + 1) (le32 v) s1) (\<lambda>n2 s. Ret (n1 + n2) s) = Ret n s'"
    by auto
  from andThen_RetD [OF r] obtain n2 where
    p2: "dict_put_bytes (a + 1) (le32 v) s1 = Ret n2 s'" and n: "n = n1 + n2"
    by auto
  have l: "le32 v \<noteq> []" "length (le32 v) = 4" by (simp_all add: le32_def)
  from dict_put_bytes_get [OF p1, of 1] have n1: "n1 = 1" by simp
  from dict_put_bytes_get [OF p2 l(1), of 4] l(2)
  have n2: "n2 = 4" and g4: "dict_get_bytes (a + 1) 4 s' = Ret (le32 v) s'" by simp_all
  from p1 obtain d1 where q1: "put_bytes (dict s) a [0xff] = Some d1" and s1: "s1 = s\<lparr>dict := d1\<rparr>"
    by (auto simp: dict_put_bytes_def split: option.splits)
  from p2 obtain d2 where q2: "put_bytes d1 (a + 1) (le32 v) = Some d2" and s2: "s' = s1\<lparr>dict := d2\<rparr>"
    by (auto simp: dict_put_bytes_def s1 split: option.splits)
  have a: "unat a < ZF_DICT_SIZE" using q1 by (simp split: if_splits)
  have a1: "unat (a + 1) = unat a + 1" using a by (rule unat_Suc_addr)
  have b2: "unat (a + 1) + length (le32 v) \<le> ZF_DICT_SIZE" using q2 l(1) by (rule put_bytes_bound)
  have d1: "d1 (unat a) = 0xff" using q1 a by auto
  have d2: "d2 (unat a) = d1 (unat a)"
    using put_bytes_eq [OF b2, of d1] q2 a1 by simp
  have "get_bytes d2 a 2 = Some (map (\<lambda>i. d2 (unat a + i)) [0..<2])"
    using b2 a1 l(2) by (intro get_bytes_eq) simp
  moreover have "[0..<2] = [0, Suc 0]"
    by (simp add: numeral_2_eq_2)
  ultimately have "\<exists>c. dict_get_bytes a 2 s' = Ret [0xff, c] s'"
    by (simp add: s2 s1 dict_get_bytes_def d1 d2)
  with n n1 n2 g4 show ?thesis by simp
qed

text \<open>
  Claim C4.  For every cell \<open>v\<close> and every size selector, a cell written with
  \<open>dict_put_cell_typed\<close> and read back at the same address with \<open>dict_get_cell_typed\<close>
  and the same selector is \<open>v\<close> truncated to the width of the selector (\<open>v\<close> itself for
  VAR and CELL), and the read returns the byte count the write returned.  The write
  and the two bytes the read always fetches first lie inside the dictionary.
\<close>

theorem cell_roundtrip:
  assumes put: "dict_put_cell_typed addr v (mem_size_code sz) s = Ret n s'"
    and room: "unat addr + 2 \<le> ZF_DICT_SIZE"
  shows "dict_get_cell_typed addr (mem_size_code sz) s' = Ret (n, truncate_to sz v) s'"
proof (cases sz)
  case ZF_MEM_SIZE_VAR
  show ?thesis
  proof -
    consider "v < 128" | "\<not> v < 128" "v < 16384" | "\<not> v < 128" "\<not> v < 16384" by blast
    then show ?thesis
    proof cases
      case 1
      with put ZF_MEM_SIZE_VAR have p: "dict_put_bytes addr [ucast v] s = Ret n s'"
        by (simp add: dict_put_cell_typed_def)
      from dict_put_bytes_get [OF p, of 1] have n: "n = 1" by simp
      from dict_put_byte_get2 [OF p room] obtain c where
        g: "dict_get_bytes addr 2 s' = Ret [ucast v, c] s'" by blast
      show ?thesis
        using 1 by (simp add: dict_get_cell_typed_def ZF_MEM_SIZE_VAR g n var1_flag var1_val)
    next
      case 2
      with put ZF_MEM_SIZE_VAR have p: "dict_put_bytes addr [ucast (drop_bit 8 v) OR 0x80, ucast v] s = Ret n s'"
        by (simp add: dict_put_cell_typed_def)
      from dict_put_bytes_get [OF p, of 2] have n: "n = 2"
        and g: "dict_get_bytes addr 2 s' = Ret [ucast (drop_bit 8 v) OR 0x80, ucast v] s'" by simp_all
      show ?thesis
        using 2 var2_flag [of v] var2_not_ff [of v] var2_val [of v]
        by (simp add: dict_get_cell_typed_def ZF_MEM_SIZE_VAR g n)
    next
      case 3
      with put ZF_MEM_SIZE_VAR have p: "andThen (dict_put_bytes (addr + 0) [0xff] s) (\<lambda>n1 s.
          andThen (dict_put_bytes (addr + 1) (le32 v) s) (\<lambda>n2 s. Ret (n1 + n2) s)) = Ret n s'"
        by (simp add: dict_put_cell_typed_def)
      from var5 [OF p] obtain c where n: "n = 5" and g2: "dict_get_bytes addr 2 s' = Ret [0xff, c] s'"
        and g4: "dict_get_bytes (addr + 1) 4 s' = Ret (le32 v) s'" by blast
      show ?thesis
        by (simp add: dict_get_cell_typed_def ZF_MEM_SIZE_VAR g2 g4 n le32_def of_le32_le32')
    qed
  qed
next
  case ZF_MEM_SIZE_CELL
  with put have p: "dict_put_bytes addr (le32 v) s = Ret n s'"
    by (simp add: dict_put_cell_typed_def)
  have l: "le32 v \<noteq> []" "length (le32 v) = 4" by (simp_all add: le32_def)
  from dict_put_bytes_get [OF p l(1), of 4] dict_put_bytes_get [OF p l(1), of 2] l(2)
  have n: "n = 4" and g4: "dict_get_bytes addr 4 s' = Ret (le32 v) s'"
    and g2: "dict_get_bytes addr 2 s' = Ret (take 2 (le32 v)) s'" by simp_all
  show ?thesis
    by (simp add: dict_get_cell_typed_def ZF_MEM_SIZE_CELL g2 g4 n le32_def of_le32_le32')
next
  case ZF_MEM_SIZE_U8
  with put have p: "dict_put_bytes addr [ucast v] s = Ret n s'"
    by (simp add: dict_put_cell_typed_def)
  from dict_put_bytes_get [OF p, of "Suc 0"] have n: "n = 1"
    and g1: "dict_get_bytes addr (Suc 0) s' = Ret [ucast v] s'" by simp_all
  from dict_put_byte_get2 [OF p room] obtain c where
    g: "dict_get_bytes addr 2 s' = Ret [ucast v, c] s'" by blast
  show ?thesis
    by (simp add: dict_get_cell_typed_def ZF_MEM_SIZE_U8 g g1 n u8_val)
next
  case ZF_MEM_SIZE_U16
  with put have p: "dict_put_bytes addr (le16 (ucast v)) s = Ret n s'"
    by (simp add: dict_put_cell_typed_def)
  have l: "le16 (ucast v) \<noteq> []" "length (le16 (ucast v)) = 2" by (simp_all add: le16_def)
  from dict_put_bytes_get [OF p l(1), of 2] l(2)
  have n: "n = 2" and g2: "dict_get_bytes addr 2 s' = Ret (le16 (ucast v)) s'" by simp_all
  show ?thesis
    by (simp add: dict_get_cell_typed_def ZF_MEM_SIZE_U16 g2 n le16_def of_le16_def u16_val)
next
  case ZF_MEM_SIZE_U32
  with put have p: "dict_put_bytes addr (le32 v) s = Ret n s'"
    by (simp add: dict_put_cell_typed_def)
  have l: "le32 v \<noteq> []" "length (le32 v) = 4" by (simp_all add: le32_def)
  from dict_put_bytes_get [OF p l(1), of 4] dict_put_bytes_get [OF p l(1), of 2] l(2)
  have n: "n = 4" and g4: "dict_get_bytes addr 4 s' = Ret (le32 v) s'"
    and g2: "dict_get_bytes addr 2 s' = Ret (take 2 (le32 v)) s'" by simp_all
  show ?thesis
    by (simp add: dict_get_cell_typed_def ZF_MEM_SIZE_U32 g2 g4 n le32_def of_le32_le32')
next
  case ZF_MEM_SIZE_S8
  with put have p: "dict_put_bytes addr [ucast v] s = Ret n s'"
    by (simp add: dict_put_cell_typed_def)
  from dict_put_bytes_get [OF p, of "Suc 0"] have n: "n = 1"
    and g1: "dict_get_bytes addr (Suc 0) s' = Ret [ucast v] s'" by simp_all
  from dict_put_byte_get2 [OF p room] obtain c where
    g: "dict_get_bytes addr 2 s' = Ret [ucast v, c] s'" by blast
  show ?thesis
    by (simp add: dict_get_cell_typed_def ZF_MEM_SIZE_S8 g g1 n s8_val)
next
  case ZF_MEM_SIZE_S16
  with put have p: "dict_put_bytes addr (le16 (ucast v)) s = Ret n s'"
    by (simp add: dict_put_cell_typed_def)
  have l: "le16 (ucast v) \<noteq> []" "length (le16 (ucast v)) = 2" by (simp_all add: le16_def)
  from dict_put_bytes_get [OF p l(1), of 2] l(2)
  have n: "n = 2" and g2: "dict_get_bytes addr 2 s' = Ret (le16 (ucast v)) s'" by simp_all
  show ?thesis
    by (simp add: dict_get_cell_typed_def ZF_MEM_SIZE_S16 g2 n le16_def of_le16_def s16_val)
next
  case ZF_MEM_SIZE_S32
  with put have p: "dict_put_bytes addr (le32 v) s = Ret n s'"
    by (simp add: dict_put_cell_typed_def)
  have l: "le32 v \<noteq> []" "length (le32 v) = 4" by (simp_all add: le32_def)
  from dict_put_bytes_get [OF p l(1), of 4] dict_put_bytes_get [OF p l(1), of 2] l(2)
  have n: "n = 4" and g4: "dict_get_bytes addr 4 s' = Ret (le32 v) s'"
    and g2: "dict_get_bytes addr 2 s' = Ret (take 2 (le32 v)) s'" by simp_all
  show ?thesis
    by (simp add: dict_get_cell_typed_def ZF_MEM_SIZE_S32 g2 g4 n le32_def of_le32_le32')
qed

theorem cell_roundtrip_witness:
  "\<exists>n s'. dict_put_cell_typed 100 300 (mem_size_code ZF_MEM_SIZE_VAR) zero_machine = Ret n s' \<and>
          unat (100 :: u32) + 2 \<le> ZF_DICT_SIZE \<and>
          dict_get_cell_typed 100 (mem_size_code ZF_MEM_SIZE_VAR) s' = Ret (2, 300) s'"
proof -
  obtain s' where p: "dict_put_cell_typed 100 300 (mem_size_code ZF_MEM_SIZE_VAR) zero_machine = Ret 2 s'"
    by (simp add: dict_put_cell_typed_def dict_put_bytes_def ZF_DICT_SIZE_def)
  have r: "unat (100 :: u32) + 2 \<le> ZF_DICT_SIZE"
    by (simp add: ZF_DICT_SIZE_def)
  from cell_roundtrip [OF p r] p r show ?thesis
    by simp
qed

section \<open>The main loop: properties\<close>

lemma main_loop_ok:
  assumes "packet_arrived cfg s" "checksum_ok cfg s"
  shows "main_loop n cfg s = dispatch n cfg (ucast (sensors0 s)) (ucast (sensors1 s)) (received cfg s)"
  using assms
  by (simp add: main_loop_def packet_arrived_def checksum_ok_def received_def Let_def)

lemma main_loop_bad:
  assumes "packet_arrived cfg s" "\<not> checksum_ok cfg s"
  shows "main_loop n cfg s = dispatch n cfg (ucast (sensors0 s)) (ucast (sensors1 s))
           (RESET_UPWARDS (send_packet cfg huart1 (set_checksum cfg
              ((received cfg s)\<lparr>packet := (packet (received cfg s))\<lparr>command := ERR cfg, options := 1\<rparr>\<rparr>))))"
  using assms
  by (simp add: main_loop_def packet_arrived_def checksum_ok_def received_def Let_def)

lemma wf_parse_packet:
  "length b = PACKET_SIZE cfg \<Longrightarrow> wf_packet cfg (parse_packet cfg b)"
  by (simp add: wf_packet_def parse_packet_def PACKET_SIZE_def UID_SIZE_def)

lemma take_packet_image:
  "take (PACKET_SIZE cfg) (packet_image cfg p) = packet_bytes cfg p"
  by (simp add: packet_image_def packet_bytes_def PACKET_SIZE_def UID_SIZE_def le32_def le16_def)

lemma set_checksum_simps [simp]:
  "packet (set_checksum cfg s) =
     (packet s)\<lparr>checksum := crc16 cfg 0 ((packet_bytes cfg (packet s))[PACKET_SIZE cfg - 2 := 0, PACKET_SIZE cfg - 1 := 0])\<rparr>"
  "trace (set_checksum cfg s) = trace s"
  "sram (set_checksum cfg s) = sram s"
  "write_pos (set_checksum cfg s) = write_pos s"
  "dict (set_checksum cfg s) = dict s"
  "dstack (set_checksum cfg s) = dstack s"
  "rstack (set_checksum cfg s) = rstack s"
  "dsp (set_checksum cfg s) = dsp s"
  "rsp (set_checksum cfg s) = rsp s"
  "ip (set_checksum cfg s) = ip s"
  "input_state (set_checksum cfg s) = input_state s"
  "hc_buf (set_checksum cfg s) = hc_buf s"
  "hc_len (set_checksum cfg s) = hc_len s"
  "sensors0 (set_checksum cfg s) = sensors0 s"
  "sensors1 (set_checksum cfg s) = sensors1 s"
  by (simp_all add: set_checksum_def make_crc_def Let_def take_packet_image)

lemma link_simps [simp]:
  "trace (send_packet cfg u s) = trace s @ [Transmit u (packet_bytes cfg (packet s))]"
  "trace (RESET_UPWARDS s) = trace s @ [Rearm huart1]"
  "trace (RESET_DOWNWARDS s) = trace s @ [Rearm huart3]"
  "packet (send_packet cfg u s) = packet s"
  "packet (RESET_UPWARDS s) = packet s"
  "packet (RESET_DOWNWARDS s) = packet s"
  by (simp_all add: send_packet_def RESET_UPWARDS_def RESET_DOWNWARDS_def)

lemma link_keeps:
  "sram (send_packet cfg u s) = sram s" "sram (RESET_UPWARDS s) = sram s" "sram (RESET_DOWNWARDS s) = sram s"
  "write_pos (send_packet cfg u s) = write_pos s" "write_pos (RESET_UPWARDS s) = write_pos s" "write_pos (RESET_DOWNWARDS s) = write_pos s"
  "dict (send_packet cfg u s) = dict s" "dict (RESET_UPWARDS s) = dict s" "dict (RESET_DOWNWARDS s) = dict s"
  "dstack (send_packet cfg u s) = dstack s" "dstack (RESET_UPWARDS s) = dstack s" "dstack (RESET_DOWNWARDS s) = dstack s"
  "rstack (send_packet cfg u s) = rstack s" "rstack (RESET_UPWARDS s) = rstack s" "rstack (RESET_DOWNWARDS s) = rstack s"
  "dsp (send_packet cfg u s) = dsp s" "dsp (RESET_UPWARDS s) = dsp s" "dsp (RESET_DOWNWARDS s) = dsp s"
  "rsp (send_packet cfg u s) = rsp s" "rsp (RESET_UPWARDS s) = rsp s" "rsp (RESET_DOWNWARDS s) = rsp s"
  "ip (send_packet cfg u s) = ip s" "ip (RESET_UPWARDS s) = ip s" "ip (RESET_DOWNWARDS s) = ip s"
  "input_state (send_packet cfg u s) = input_state s" "input_state (RESET_UPWARDS s) = input_state s" "input_state (RESET_DOWNWARDS s) = input_state s"
  "hc_buf (send_packet cfg u s) = hc_buf s" "hc_buf (RESET_UPWARDS s) = hc_buf s" "hc_buf (RESET_DOWNWARDS s) = hc_buf s"
  "hc_len (send_packet cfg u s) = hc_len s" "hc_len (RESET_UPWARDS s) = hc_len s" "hc_len (RESET_DOWNWARDS s) = hc_len s"
  "sensors0 (send_packet cfg u s) = sensors0 s" "sensors0 (RESET_UPWARDS s) = sensors0 s" "sensors0 (RESET_DOWNWARDS s) = sensors0 s"
  "sensors1 (send_packet cfg u s) = sensors1 s" "sensors1 (RESET_UPWARDS s) = sensors1 s" "sensors1 (RESET_DOWNWARDS s) = sensors1 s"
  by (simp_all add: send_packet_def RESET_UPWARDS_def RESET_DOWNWARDS_def)

lemma received_simps [simp]:
  "packet (received cfg s) = (parse_packet cfg (buffer s))\<lparr>pic := pic (parse_packet cfg (buffer s)) + 1\<rparr>"
  "trace (received cfg s) = trace s"
  "sram (received cfg s) = sram s"
  "write_pos (received cfg s) = write_pos s"
  "dict (received cfg s) = dict s"
  "dstack (received cfg s) = dstack s"
  "rstack (received cfg s) = rstack s"
  "dsp (received cfg s) = dsp s"
  "rsp (received cfg s) = rsp s"
  "ip (received cfg s) = ip s"
  "input_state (received cfg s) = input_state s"
  "hc_buf (received cfg s) = hc_buf s"
  "hc_len (received cfg s) = hc_len s"
  "sensors0 (received cfg s) = sensors0 s"
  "sensors1 (received cfg s) = sensors1 s"
  by (simp_all add: received_def)

lemma wf_config_neq:
  assumes "wf_config cfg"
  shows "READ cfg \<noteq> PING cfg"
    "WRITE cfg \<noteq> PING cfg" "WRITE cfg \<noteq> READ cfg"
    "SENSORS cfg \<noteq> PING cfg" "SENSORS cfg \<noteq> READ cfg" "SENSORS cfg \<noteq> WRITE cfg"
    "LOAD cfg \<noteq> PING cfg" "LOAD cfg \<noteq> READ cfg" "LOAD cfg \<noteq> WRITE cfg" "LOAD cfg \<noteq> SENSORS cfg"
    "EXEC cfg \<noteq> PING cfg" "EXEC cfg \<noteq> READ cfg" "EXEC cfg \<noteq> WRITE cfg" "EXEC cfg \<noteq> SENSORS cfg"
    "EXEC cfg \<noteq> LOAD cfg"
    "RETR cfg \<noteq> PING cfg" "RETR cfg \<noteq> READ cfg" "RETR cfg \<noteq> WRITE cfg" "RETR cfg \<noteq> SENSORS cfg"
    "RETR cfg \<noteq> LOAD cfg" "RETR cfg \<noteq> EXEC cfg"
    "ERR cfg \<noteq> PING cfg" "ERR cfg \<noteq> READ cfg" "ERR cfg \<noteq> WRITE cfg" "ERR cfg \<noteq> SENSORS cfg"
    "ERR cfg \<noteq> LOAD cfg" "ERR cfg \<noteq> EXEC cfg" "ERR cfg \<noteq> RETR cfg"
    "ALL_opt cfg \<noteq> OWN cfg"
  using assms unfolding wf_config_def by (simp_all add: eq_commute)

lemma dispatch_nonlocal:
  assumes "wf_config cfg"
    and "command (packet s) \<in> {READ cfg, WRITE cfg, SENSORS cfg, LOAD cfg, EXEC cfg, RETR cfg}"
    and "\<not> STR_MATCH (UID cfg) (uid (packet s))"
  shows "dispatch n cfg temp vdd s = Ret () (forward_down cfg s)"
proof -
  note ne = wf_config_neq [OF assms(1)]
  from assms(2) consider "command (packet s) = READ cfg" | "command (packet s) = WRITE cfg"
    | "command (packet s) = SENSORS cfg" | "command (packet s) = LOAD cfg"
    | "command (packet s) = EXEC cfg" | "command (packet s) = RETR cfg"
    by blast
  then show ?thesis
  proof cases
    case 1
    then show ?thesis using assms(3) ne by (simp add: dispatch_def Let_def)
  next
    case 2
    then show ?thesis using assms(3) ne by (simp add: dispatch_def Let_def)
  next
    case 3
    then show ?thesis using assms(3) ne by (simp add: dispatch_def Let_def)
  next
    case 4
    then show ?thesis using assms(3) ne by (simp add: dispatch_def Let_def)
  next
    case 5
    then show ?thesis using assms(3) ne by (simp add: dispatch_def Let_def)
  next
    case 6
    then show ?thesis using assms(3) ne by (simp add: dispatch_def Let_def)
  qed
qed

lemma wf_packet_upd [simp]:
  "wf_packet cfg (p\<lparr>pic := a\<rparr>) = wf_packet cfg p"
  "wf_packet cfg (p\<lparr>checksum := c\<rparr>) = wf_packet cfg p"
  "wf_packet cfg (p\<lparr>command := k\<rparr>) = wf_packet cfg p"
  "wf_packet cfg (p\<lparr>options := opt\<rparr>) = wf_packet cfg p"
  by (simp_all add: wf_packet_def)

lemma frame_length:
  "wf_packet cfg p \<Longrightarrow> length (frame cfg p) = PACKET_SIZE cfg"
  by (simp add: frame_def length_packet_bytes)

lemma packet_bytes_clear_checksum:
  assumes "wf_packet cfg p"
  shows "(packet_bytes cfg (p\<lparr>checksum := c\<rparr>))[PACKET_SIZE cfg - 2 := 0, PACKET_SIZE cfg - 1 := 0]
           = (packet_bytes cfg p)[PACKET_SIZE cfg - 2 := 0, PACKET_SIZE cfg - 1 := 0]"
proof -
  define xs where "xs = [command p, pic p] @ le32 (options p) @ uid p @ data p"
  have e1: "PACKET_SIZE cfg - 2 = length xs" and e2: "PACKET_SIZE cfg - 1 = Suc (length xs)"
    using assms by (simp_all add: xs_def wf_packet_def PACKET_SIZE_def UID_SIZE_def le32_def)
  have b: "packet_bytes cfg (p\<lparr>checksum := c\<rparr>) = xs @ le16 c"
    using assms by (simp add: packet_bytes_def xs_def wf_packet_def)
  have bp: "packet_bytes cfg p = xs @ le16 (checksum p)"
    using assms by (simp add: packet_bytes_def xs_def wf_packet_def)
  have z: "(xs @ le16 d)[length xs := 0, Suc (length xs) := 0] = xs @ [0, 0]" for d
    by (simp add: le16_def list_update_append)
  show ?thesis
    by (simp only: e1 e2 b bp z)
qed

lemma frame_parse:
  assumes "wf_packet cfg p"
  shows "parse_packet cfg (frame cfg p) =
           p\<lparr>checksum := crc16 cfg 0
                 ((packet_bytes cfg p)[PACKET_SIZE cfg - 2 := 0, PACKET_SIZE cfg - 1 := 0])\<rparr>"
  using assms by (simp add: frame_def parse_packet_bytes)

lemma frame_checksum_ok:
  assumes "wf_packet cfg p" and "buffer s = frame cfg p"
  shows "checksum_ok cfg s"
proof -
  have "parse_packet cfg (buffer s) =
          p\<lparr>checksum := crc16 cfg 0
                ((packet_bytes cfg p)[PACKET_SIZE cfg - 2 := 0, PACKET_SIZE cfg - 1 := 0])\<rparr>"
    using assms by (simp only: frame_parse)
  then have 1: "checksum (parse_packet cfg (buffer s)) =
      crc16 cfg 0 ((packet_bytes cfg p)[PACKET_SIZE cfg - 2 := 0, PACKET_SIZE cfg - 1 := 0])"
    by simp
  have 2: "(buffer s)[PACKET_SIZE cfg - 2 := 0, PACKET_SIZE cfg - 1 := 0] =
      (packet_bytes cfg p)[PACKET_SIZE cfg - 2 := 0, PACKET_SIZE cfg - 1 := 0]"
    unfolding assms(2) frame_def by (rule packet_bytes_clear_checksum [OF assms(1)])
  show ?thesis
    unfolding checksum_ok_def 2 1 ..
qed

lemma wf_demo_config: "wf_config demo_config"
  by (simp add: wf_config_def demo_config_def)

lemma UID_demo: "UID demo_config = cstr ''001A2B3C4D5E6F708192A3B4'' @ [0]"
  by (simp add: UID_def collect_bid_def demo_config_def hex8_def be32_def hex_digit_def
      upt_rec cstr_def)

lemma demo_input_arrived:
  "wf_packet demo_config p \<Longrightarrow> packet_arrived demo_config (demo_input p)"
  by (simp add: packet_arrived_def demo_input_def frame_length) (simp add: PACKET_SIZE_def demo_config_def)

lemma demo_input_checksum_ok:
  "wf_packet demo_config p \<Longrightarrow> checksum_ok demo_config (demo_input p)"
  by (rule frame_checksum_ok) (simp_all add: demo_input_def)

lemma demo_input_parse:
  "wf_packet demo_config p \<Longrightarrow>
   parse_packet demo_config (buffer (demo_input p)) =
     p\<lparr>checksum := checksum (parse_packet demo_config (buffer (demo_input p)))\<rparr>"
  by (simp add: demo_input_def frame_parse)

lemma demo_input_fields:
  "trace (demo_input p) = []" "sram (demo_input p) = sram zero_machine"
  "write_pos (demo_input p) = 0" "dict (demo_input p) = dict zero_machine"
  "dsp (demo_input p) = 0" "rsp (demo_input p) = 0"
  "dstack (demo_input p) = dstack zero_machine" "hc_len (demo_input p) = 0"
  "input_state (demo_input p) = ZF_INPUT_INTERPRET"
  by (simp_all add: demo_input_def zero_machine_def)

lemma set_checksum_twice:
  assumes "wf_packet cfg (packet s)"
  shows "packet (set_checksum cfg (RESET_UPWARDS (send_packet cfg huart1 (set_checksum cfg s))))
           = packet (set_checksum cfg s)"
  using packet_bytes_clear_checksum [OF assms]
  by simp

lemma dispatch_err:
  assumes "wf_config cfg" and "command (packet s) = ERR cfg"
  shows "dispatch n cfg temp vdd s = Ret () (RESET_UPWARDS (send_packet cfg huart1 (set_checksum cfg s)))"
  using assms wf_config_neq [OF assms(1)]
  by (simp add: dispatch_def Let_def)

lemma mismatch_result:
  assumes "wf_config cfg" and "packet_arrived cfg s" and "\<not> checksum_ok cfg s"
  shows "main_loop n cfg s =
     Ret () (RESET_UPWARDS (send_packet cfg huart1 (set_checksum cfg
       (RESET_UPWARDS (send_packet cfg huart1 (set_checksum cfg
         ((received cfg s)\<lparr>packet := (packet (received cfg s))\<lparr>command := ERR cfg, options := 1\<rparr>\<rparr>)))))))"
proof -
  let ?r = "(received cfg s)\<lparr>packet := (packet (received cfg s))\<lparr>command := ERR cfg, options := 1\<rparr>\<rparr>"
  have "command (packet (RESET_UPWARDS (send_packet cfg huart1 (set_checksum cfg ?r)))) = ERR cfg"
    by simp
  from main_loop_bad [OF assms(2,3), of n] dispatch_err [OF assms(1) this]
  show ?thesis by simp
qed

text \<open>
  Claim C3.  A packet that has arrived whole, with command READ, WRITE, SENSORS, LOAD,
  EXEC or RETR and a uid that is not this node's: after the turn of the loop the memory
  surface, \<open>write_pos\<close>, the sensor words and every variable of the VM are as before
  (no write, no load, no evaluation).  When the packet passes the checksum test that
  precedes the \<open>switch\<close>, the node transmits exactly one packet, on the down-link, with
  the received command, options, uid and data (no read, no sensor fill) and the hop
  counter incremented, and re-arms both links.
\<close>

theorem nonlocal_forwarded:
  assumes "wf_config cfg" and "packet_arrived cfg s"
    and "command (parse_packet cfg (buffer s))
           \<in> {READ cfg, WRITE cfg, SENSORS cfg, LOAD cfg, EXEC cfg, RETR cfg}"
    and "\<not> STR_MATCH (UID cfg) (uid (parse_packet cfg (buffer s)))"
  shows "\<exists>s'. main_loop n cfg s = Ret () s' \<and>
           sram s' = sram s \<and> write_pos s' = write_pos s \<and>
           dict s' = dict s \<and> dstack s' = dstack s \<and> rstack s' = rstack s \<and>
           dsp s' = dsp s \<and> rsp s' = rsp s \<and> ip s' = ip s \<and>
           input_state s' = input_state s \<and> hc_buf s' = hc_buf s \<and> hc_len s' = hc_len s \<and>
           sensors0 s' = sensors0 s \<and> sensors1 s' = sensors1 s \<and>
           (checksum_ok cfg s \<longrightarrow>
              (\<exists>bs. trace s' = trace s @ [Transmit huart3 bs, Rearm huart3, Rearm huart1] \<and>
                 command (parse_packet cfg bs) = command (parse_packet cfg (buffer s)) \<and>
                 pic (parse_packet cfg bs) = pic (parse_packet cfg (buffer s)) + 1 \<and>
                 options (parse_packet cfg bs) = options (parse_packet cfg (buffer s)) \<and>
                 uid (parse_packet cfg bs) = uid (parse_packet cfg (buffer s)) \<and>
                 data (parse_packet cfg bs) = data (parse_packet cfg (buffer s))))"
proof (cases "checksum_ok cfg s")
  case True
  let ?p = "parse_packet cfg (buffer s)"
  have wf: "wf_packet cfg ?p"
    using assms(2) by (simp add: packet_arrived_def wf_parse_packet)
  have d: "dispatch n cfg (ucast (sensors0 s)) (ucast (sensors1 s)) (received cfg s)
             = Ret () (forward_down cfg (received cfg s))"
    using assms(1,3,4) by (intro dispatch_nonlocal) simp_all
  have m: "main_loop n cfg s = Ret () (forward_down cfg (received cfg s))"
    using main_loop_ok [OF assms(2) True] d by simp
  show ?thesis
    using wf
    by (simp add: m forward_down_def link_keeps parse_packet_bytes)
next
  case False
  show ?thesis
    using False
    by (simp add: mismatch_result [OF assms(1,2) False] link_keeps)
qed

theorem nonlocal_forwarded_witness:
  "wf_config demo_config \<and> packet_arrived demo_config (demo_input demo_packet) \<and>
   checksum_ok demo_config (demo_input demo_packet) \<and>
   command (parse_packet demo_config (buffer (demo_input demo_packet))) = READ demo_config \<and>
   \<not> STR_MATCH (UID demo_config) (uid (parse_packet demo_config (buffer (demo_input demo_packet)))) \<and>
   (\<exists>s' bs. main_loop 0 demo_config (demo_input demo_packet) = Ret () s' \<and>
      trace s' = [Transmit huart3 bs, Rearm huart3, Rearm huart1] \<and>
      command (parse_packet demo_config bs) = READ demo_config \<and>
      data (parse_packet demo_config bs) = data demo_packet \<and>
      sram s' = sram zero_machine \<and> write_pos s' = 0 \<and> dict s' = dict zero_machine \<and>
      dsp s' = 0 \<and> rsp s' = 0)"
proof -
  note p = demo_input_parse [OF wf_demo_packet]
  have c: "command (parse_packet demo_config (buffer (demo_input demo_packet))) = READ demo_config"
    by (subst p) (simp add: demo_packet_def demo_config_def)
  have u: "uid (parse_packet demo_config (buffer (demo_input demo_packet))) = uid demo_packet"
    by (subst p) simp
  have d: "data (parse_packet demo_config (buffer (demo_input demo_packet))) = data demo_packet"
    by (subst p) simp
  have m: "\<not> STR_MATCH (UID demo_config) (uid (parse_packet demo_config (buffer (demo_input demo_packet))))"
  proof -
    have "\<not> STR_MATCH (UID demo_config) (uid demo_packet)"
      by (simp add: UID_demo STR_MATCH_def demo_packet_def cstr_def UID_SIZE_def)
    then show ?thesis unfolding u .
  qed
  have c': "command (parse_packet demo_config (buffer (demo_input demo_packet)))
              \<in> {READ demo_config, WRITE demo_config, SENSORS demo_config, LOAD demo_config,
                  EXEC demo_config, RETR demo_config}"
    using c by simp
  from nonlocal_forwarded [OF wf_demo_config demo_input_arrived [OF wf_demo_packet] c' m, of 0]
    demo_input_checksum_ok [OF wf_demo_packet]
  obtain s' bs where "main_loop 0 demo_config (demo_input demo_packet) = Ret () s'"
    and "trace s' = trace (demo_input demo_packet) @ [Transmit huart3 bs, Rearm huart3, Rearm huart1]"
    and "command (parse_packet demo_config bs) = command (parse_packet demo_config (buffer (demo_input demo_packet)))"
    and "data (parse_packet demo_config bs) = data (parse_packet demo_config (buffer (demo_input demo_packet)))"
    and "sram s' = sram (demo_input demo_packet)" and "write_pos s' = write_pos (demo_input demo_packet)"
    and "dict s' = dict (demo_input demo_packet)" and "dsp s' = dsp (demo_input demo_packet)"
    and "rsp s' = rsp (demo_input demo_packet)"
    by blast
  then have "main_loop 0 demo_config (demo_input demo_packet) = Ret () s' \<and>
      trace s' = [Transmit huart3 bs, Rearm huart3, Rearm huart1] \<and>
      command (parse_packet demo_config bs) = READ demo_config \<and>
      data (parse_packet demo_config bs) = data demo_packet \<and>
      sram s' = sram zero_machine \<and> write_pos s' = 0 \<and> dict s' = dict zero_machine \<and>
      dsp s' = 0 \<and> rsp s' = 0"
    by (simp add: c d demo_input_fields)
  then show ?thesis
    using wf_demo_config demo_input_arrived [OF wf_demo_packet]
      demo_input_checksum_ok [OF wf_demo_packet] c m
    by blast
qed

lemma hex_digit_nonzero: "hex_digit (x AND 0xf) \<noteq> 0"
proof -
  define d where "d = x AND 0xf"
  have "d \<le> 0xf" unfolding d_def by (rule word_and_le1)
  then have le: "unat d \<le> 15" by (simp add: word_le_nat_alt)
  have u: "unat (ucast d :: u8) = unat d"
    using le by (simp add: unsigned_ucast_eq take_bit_nat_eq_self)
  show ?thesis
  proof (cases "d < 10")
    case True
    then have "unat d < 10" by (simp add: word_less_nat_alt)
    then have "unat (0x30 + ucast d :: u8) = 48 + unat d"
      using u by (simp add: unat_word_ariths)
    then have "(0x30 + ucast d :: u8) \<noteq> 0"
      by (metis add_is_0 unat_0 zero_neq_numeral)
    with True show ?thesis by (simp add: hex_digit_def d_def)
  next
    case False
    then have ge: "10 \<le> unat d" by (simp add: word_less_nat_alt)
    have "(10 :: u8) \<le> ucast d"
      using ge u by (simp add: word_le_nat_alt)
    then have "unat (ucast d - 10 :: u8) = unat d - 10"
      using u by (simp add: unat_sub)
    then have "unat (0x41 + (ucast d - 10) :: u8) = 65 + (unat d - 10)"
      using le u ge by (simp add: unat_word_ariths)
    then have "(0x41 + (ucast d - 10) :: u8) \<noteq> 0"
      by (metis add_is_0 unat_0 zero_neq_numeral)
    with False show ?thesis by (simp add: hex_digit_def d_def)
  qed
qed

lemma hex8_form: "length (hex8 w) = 8 \<and> 0 \<notin> set (hex8 w)"
  using hex_digit_nonzero by (auto simp: hex8_def)

lemma UID_form: "\<exists>xs. UID cfg = xs @ [0] \<and> length xs = 24 \<and> 0 \<notin> set xs"
proof -
  let ?hi = "uid_bytes_hi cfg" and ?lo = "uid_bytes_lo cfg"
  let ?xs = "hex8 (be32 (?hi ! 0) (?hi ! 1) (?hi ! 2) (?hi ! 3)) @
             hex8 (be32 (?hi ! 4) (?hi ! 5) (?hi ! 6) (?hi ! 7)) @
             hex8 (be32 (?lo ! 0) (?lo ! 1) (?lo ! 2) (?lo ! 3))"
  have "UID cfg = ?xs @ [0]" by (simp add: UID_def collect_bid_def Let_def)
  moreover have "length ?xs = 24" "0 \<notin> set ?xs" using hex8_form by simp_all
  ultimately show ?thesis by blast
qed

lemma strcpy_UID:
  assumes "length u = 25"
  shows "strcpy u (UID cfg) = UID cfg"
proof -
  from UID_form obtain xs where x: "UID cfg = xs @ [0]" "length xs = 24" "0 \<notin> set xs"
    by blast
  have "takeWhile (\<lambda>c. c \<noteq> 0) (xs @ [0]) = xs"
    using x(3) by (induction xs) auto
  then show ?thesis
    using x(2) assms by (simp add: strcpy_def x(1))
qed

text \<open>
  Claim C8.  A PING packet with options ALL that has arrived whole with a matching
  checksum, whatever its uid: the node first transmits on the up-link an ACK whose uid
  is the node's own UID and whose options are the reset vector's end-of-RAM pointer
  minus the SRAM base, and then transmits on the down-link a packet with command PING
  and options ALL.
\<close>

theorem ping_all:
  assumes "wf_config cfg" and "packet_arrived cfg s" and "checksum_ok cfg s"
    and "command (parse_packet cfg (buffer s)) = PING cfg"
    and "options (parse_packet cfg (buffer s)) = ALL_opt cfg"
  shows "\<exists>s' up down. main_loop n cfg s = Ret () s' \<and>
           trace s' = trace s @ [Transmit huart1 up, Rearm huart1, Transmit huart3 down, Rearm huart3] \<and>
           command (parse_packet cfg up) = ACK cfg \<and>
           uid (parse_packet cfg up) = UID cfg \<and>
           options (parse_packet cfg up) = g_pfnVectors0 cfg - SRAM_ADDRESS \<and>
           command (parse_packet cfg down) = PING cfg \<and>
           options (parse_packet cfg down) = ALL_opt cfg"
proof -
  let ?p = "parse_packet cfg (buffer s)"
  have wf: "wf_packet cfg ?p"
    using assms(2) by (simp add: packet_arrived_def wf_parse_packet)
  then have lu: "length (uid ?p) = 25" by (simp add: wf_packet_def UID_SIZE_def)
  have c: "strcpy (uid ?p) (UID cfg) = UID cfg" using lu by (rule strcpy_UID)
  from UID_form obtain xs where "UID cfg = xs @ [0]" "length xs = 24" by blast
  then have l: "length (UID cfg) = 25" by simp
  have wf': "wf_packet cfg (?p\<lparr>uid := UID cfg\<rparr>)"
    using wf l by (simp add: wf_packet_def UID_SIZE_def)
  have wf_upd: "wf_packet cfg (q\<lparr>pic := a, options := b, command := k, checksum := e\<rparr>)"
    if "wf_packet cfg q" for q a b k e
    using that by (simp add: wf_packet_def)
  show ?thesis
    using wf' assms(4,5) wf_config_neq [OF assms(1)]
    by (simp add: main_loop_ok [OF assms(2,3)] dispatch_def Let_def c
        parse_packet_bytes wf_packet_def sram_size_def SRAM_START_def)
qed

lemma demo_ping_wf: "wf_packet demo_config demo_ping"
  by (simp add: wf_packet_def demo_config_def demo_ping_def UID_SIZE_def)

theorem ping_all_witness:
  "wf_config demo_config \<and> packet_arrived demo_config (demo_input demo_ping) \<and>
   checksum_ok demo_config (demo_input demo_ping) \<and>
   command (parse_packet demo_config (buffer (demo_input demo_ping))) = PING demo_config \<and>
   options (parse_packet demo_config (buffer (demo_input demo_ping))) = ALL_opt demo_config \<and>
   (\<exists>s' up down. main_loop 0 demo_config (demo_input demo_ping) = Ret () s' \<and>
      trace s' = [Transmit huart1 up, Rearm huart1, Transmit huart3 down, Rearm huart3] \<and>
      command (parse_packet demo_config up) = ACK demo_config \<and>
      uid (parse_packet demo_config up) = cstr ''001A2B3C4D5E6F708192A3B4'' @ [0] \<and>
      options (parse_packet demo_config up) = 0x8000 \<and>
      command (parse_packet demo_config down) = PING demo_config \<and>
      options (parse_packet demo_config down) = ALL_opt demo_config)"
proof -
  note p = demo_input_parse [OF demo_ping_wf]
  have c: "command (parse_packet demo_config (buffer (demo_input demo_ping))) = PING demo_config"
    by (subst p) (simp add: demo_ping_def demo_config_def)
  have o: "options (parse_packet demo_config (buffer (demo_input demo_ping))) = ALL_opt demo_config"
    by (subst p) (simp add: demo_ping_def demo_config_def)
  have v: "g_pfnVectors0 demo_config - SRAM_ADDRESS = 0x8000"
    by (simp add: demo_config_def SRAM_ADDRESS_def)
  from ping_all [OF wf_demo_config demo_input_arrived [OF demo_ping_wf]
      demo_input_checksum_ok [OF demo_ping_wf] c o, of 0]
  have "\<exists>s' up down. main_loop 0 demo_config (demo_input demo_ping) = Ret () s' \<and>
      trace s' = [Transmit huart1 up, Rearm huart1, Transmit huart3 down, Rearm huart3] \<and>
      command (parse_packet demo_config up) = ACK demo_config \<and>
      uid (parse_packet demo_config up) = cstr ''001A2B3C4D5E6F708192A3B4'' @ [0] \<and>
      options (parse_packet demo_config up) = 0x8000 \<and>
      command (parse_packet demo_config down) = PING demo_config \<and>
      options (parse_packet demo_config down) = ALL_opt demo_config"
    by (simp add: demo_input_fields UID_demo v)
  then show ?thesis
    using wf_demo_config demo_input_arrived [OF demo_ping_wf]
      demo_input_checksum_ok [OF demo_ping_wf] c o
    by blast
qed

lemma mismatch_sends_err_twice:
  assumes "wf_config cfg" and "packet_arrived cfg s" and "\<not> checksum_ok cfg s"
  shows "\<exists>s' e. main_loop n cfg s = Ret () s' \<and>
           trace s' = trace s @ [Transmit huart1 e, Rearm huart1, Transmit huart1 e, Rearm huart1] \<and>
           command (parse_packet cfg e) = ERR cfg \<and> options (parse_packet cfg e) = 1"
proof -
  let ?p = "parse_packet cfg (buffer s)"
  let ?r = "(received cfg s)\<lparr>packet := (packet (received cfg s))\<lparr>command := ERR cfg, options := 1\<rparr>\<rparr>"
  let ?s1 = "RESET_UPWARDS (send_packet cfg huart1 (set_checksum cfg ?r))"
  have wf: "wf_packet cfg ?p"
    using assms(2) by (simp add: packet_arrived_def wf_parse_packet)
  then have wfr: "wf_packet cfg (packet ?r)" by simp
  have m: "main_loop n cfg s = Ret () (RESET_UPWARDS (send_packet cfg huart1 (set_checksum cfg ?s1)))"
    using assms by (rule mismatch_result)
  have p2: "packet (set_checksum cfg ?s1) = packet (set_checksum cfg ?r)"
    using wfr by (rule set_checksum_twice)
  have wf2: "wf_packet cfg (packet (set_checksum cfg ?r))"
    using wf by simp
  have t: "trace (RESET_UPWARDS (send_packet cfg huart1 (set_checksum cfg ?s1))) =
        trace s @ [Transmit huart1 (packet_bytes cfg (packet (set_checksum cfg ?r))), Rearm huart1,
                   Transmit huart1 (packet_bytes cfg (packet (set_checksum cfg ?r))), Rearm huart1]"
    unfolding link_simps p2 set_checksum_simps(2) by simp
  have "command (parse_packet cfg (packet_bytes cfg (packet (set_checksum cfg ?r)))) = ERR cfg"
    "options (parse_packet cfg (packet_bytes cfg (packet (set_checksum cfg ?r)))) = 1"
    unfolding parse_packet_bytes [OF wf2] by simp_all
  with m t show ?thesis by blast
qed

lemma demo_sensors_wf: "wf_packet demo_config demo_sensors"
  by (simp add: wf_packet_def demo_config_def demo_sensors_def UID_SIZE_def cstr_def)

lemma demo_corrupt_arrived: "packet_arrived demo_config demo_corrupt"
  using frame_length [OF demo_sensors_wf]
  by (simp add: packet_arrived_def demo_corrupt_def) (simp add: PACKET_SIZE_def demo_config_def)

lemma replicate_31: "replicate 31 (x :: u8) = [x,x,x,x,x,x,x,x,x,x,x,x,x,x,x,x,x,x,x,x,x,x,x,x,x,x,x,x,x,x,x]"
  by (simp add: eval_nat_numeral)

lemma demo_corrupt_mismatch: "\<not> checksum_ok demo_config demo_corrupt"
  by (simp add: checksum_ok_def demo_corrupt_def frame_def packet_bytes_def demo_sensors_def
      demo_config_def PACKET_SIZE_def UID_SIZE_def cstr_def le32_def le16_def parse_packet_def replicate_31)

text \<open>
  Claim C1 asks for exactly one ERR packet after a checksum mismatch.  The code sends
  two: the branch that replies to the mismatch has no \<open>continue\<close>, so the \<open>switch\<close> runs
  on the packet whose command is now ERR, and its ERR case sends the packet again.
  Here for the frame of a SENSORS request with one byte changed on the wire: the
  checksum does not match, and the up-link carries the same ERR packet with options 1
  twice, each followed by a re-arm; nothing is sent down.
\<close>

theorem checksum_mismatch_two_replies:
  "\<not> checksum_ok demo_config demo_corrupt \<and>
   (\<exists>s' e. main_loop 0 demo_config demo_corrupt = Ret () s' \<and>
      trace s' = [Transmit huart1 e, Rearm huart1, Transmit huart1 e, Rearm huart1] \<and>
      command (parse_packet demo_config e) = ERR demo_config \<and>
      options (parse_packet demo_config e) = 1)"
proof -
  have "trace demo_corrupt = []" by (simp add: demo_corrupt_def zero_machine_def)
  with mismatch_sends_err_twice [OF wf_demo_config demo_corrupt_arrived demo_corrupt_mismatch, of 0]
    demo_corrupt_mismatch
  show ?thesis by simp
qed


lemma length_mem_read [simp]: "length (mem_read m a n) = n"
  by (simp add: mem_read_def)

lemma hd_mem_read: "0 < n \<Longrightarrow> hd (mem_read m a n) = m a"
  by (simp add: mem_read_def hd_map upt_rec [of 0 n])

lemma retr_local_reply:
  assumes "wf_config cfg" and "packet_arrived cfg s" and "checksum_ok cfg s"
    and "command (parse_packet cfg (buffer s)) = RETR cfg"
    and "STR_MATCH (UID cfg) (uid (parse_packet cfg (buffer s)))"
  shows "\<exists>s' up. main_loop n cfg s = Ret () s' \<and>
           trace s' = trace s @ [Transmit huart1 up, Rearm huart1] \<and>
           command (parse_packet cfg up) = ACK cfg \<and>
           data (parse_packet cfg up) =
             mem_read (sram s)
               (WRITE_BUF cfg + 4 * (of_nat (DATA_SIZE cfg) * options (parse_packet cfg (buffer s))))
               (DATA_SIZE cfg)"
proof -
  let ?p = "parse_packet cfg (buffer s)"
  have wf: "wf_packet cfg ?p"
    using assms(2) by (simp add: packet_arrived_def wf_parse_packet)
  show ?thesis
    using wf assms(4,5) wf_config_neq [OF assms(1)]
    by (simp add: main_loop_ok [OF assms(2,3)] dispatch_def Let_def ack_up_def
        parse_packet_bytes wf_packet_def)
qed

lemma demo_retr_wf: "wf_packet demo_config demo_retr"
  by (simp add: wf_packet_def demo_config_def demo_retr_def UID_SIZE_def cstr_def)

text \<open>
  Claim C2 places the bytes of a RETR reply at byte offset \<open>options * DATA_SIZE\<close> of the
  result buffer.  The code adds \<open>DATA_SIZE * options\<close> to \<open>WRITE_BUF\<close>, a pointer to
  32-bit cells, so the bytes come from byte offset \<open>4 * options * DATA_SIZE\<close>.  Here for
  a RETR request for block 1 addressed to the example node: the ACK carries the 31
  bytes from byte offset 124, which are not the 31 bytes from byte offset 31.
\<close>

theorem retr_reads_scaled_offset:
  "\<exists>s' up. main_loop 0 demo_config demo_retr_input = Ret () s' \<and>
      trace s' = [Transmit huart1 up, Rearm huart1] \<and>
      command (parse_packet demo_config up) = ACK demo_config \<and>
      data (parse_packet demo_config up)
        = mem_read (sram demo_retr_input) (WRITE_BUF demo_config + 4 * 31) 31 \<and>
      data (parse_packet demo_config up)
        \<noteq> mem_read (sram demo_retr_input) (WRITE_BUF demo_config + 31) 31"
proof -
  have b: "buffer demo_retr_input = frame demo_config demo_retr"
    by (simp add: demo_retr_input_def demo_input_def)
  have a: "packet_arrived demo_config demo_retr_input"
    using demo_input_arrived [OF demo_retr_wf]
    by (simp add: packet_arrived_def demo_retr_input_def)
  have k: "checksum_ok demo_config demo_retr_input"
    using demo_retr_wf b by (rule frame_checksum_ok)
  have p: "parse_packet demo_config (buffer demo_retr_input) =
       demo_retr\<lparr>checksum := checksum (parse_packet demo_config (buffer demo_retr_input))\<rparr>"
    unfolding b by (simp add: frame_parse [OF demo_retr_wf])
  have c: "command (parse_packet demo_config (buffer demo_retr_input)) = RETR demo_config"
    by (subst p) (simp add: demo_retr_def demo_config_def)
  have o: "options (parse_packet demo_config (buffer demo_retr_input)) = 1"
    by (subst p) (simp add: demo_retr_def)
  have u: "uid (parse_packet demo_config (buffer demo_retr_input)) = uid demo_retr"
    by (subst p) simp
  have "STR_MATCH (UID demo_config) (uid demo_retr)"
    by (simp add: UID_demo STR_MATCH_def demo_retr_def)
  then have m: "STR_MATCH (UID demo_config) (uid (parse_packet demo_config (buffer demo_retr_input)))"
    unfolding u .
  have t: "trace demo_retr_input = []"
    by (simp add: demo_retr_input_def demo_input_fields)
  have d: "DATA_SIZE demo_config = 31" by (simp add: demo_config_def)
  have ne: "mem_read (sram demo_retr_input) (WRITE_BUF demo_config + 4 * 31) 31
            \<noteq> mem_read (sram demo_retr_input) (WRITE_BUF demo_config + 31) 31"
  proof
    assume "mem_read (sram demo_retr_input) (WRITE_BUF demo_config + 4 * 31) 31
            = mem_read (sram demo_retr_input) (WRITE_BUF demo_config + 31) 31"
    then have "hd (mem_read (sram demo_retr_input) (WRITE_BUF demo_config + 4 * 31) 31)
            = hd (mem_read (sram demo_retr_input) (WRITE_BUF demo_config + 31) 31)"
      by simp
    then show False
      by (simp add: hd_mem_read demo_retr_input_def WRITE_BUF_def demo_config_def
          SRAM_ADDRESS_def WRITE_BUF_OFFSET_def)
  qed
  from retr_local_reply [OF wf_demo_config a k c m, of 0] ne
  show ?thesis
    by (auto simp: t o d)
qed

section \<open>The VM: user variables and the result buffer, properties\<close>

lemma prim_of_code [simp]: "prim_of (prim_code p) = Some p"
  by (cases p) (simp_all add: prim_of_def prim_code_def prim_table_def PRIM_COUNT_def)

lemma uservar_set_same:
  "uservar (uservar_set i v s) i = v"
  using of_le32_le32 [of v]
  by (simp add: uservar_def uservar_set_def of_le32_def)

lemma uservar_set_dict_other:
  "j < 4 * i \<or> 4 * i + 3 < j \<Longrightarrow> dict (uservar_set i v s) j = dict s j"
  by (auto simp: uservar_set_def)

lemma zf_pop_dict:
  "zf_pop s = Ret v s1 \<Longrightarrow> dict s1 = dict s"
  by (auto simp: zf_pop_def Let_def split: if_splits)

lemma zf_pop_uservar:
  "zf_pop s = Ret v s1 \<Longrightarrow> uservar s1 i = uservar s i"
  by (simp add: uservar_def zf_pop_dict)

text \<open>
  Claim C10.  For an address below \<open>ZF_USERVAR_COUNT\<close> and any size selector (valid or
  not): \<open>peek\<close> returns user variable \<open>a\<close> and the length 1 without reading a cell of
  the dictionary, so the primitive \<open>@@\<close> pushes the variable and \<open>##\<close> pushes 1; the
  primitive \<open>!!\<close> pops selector, address and value and stores the value into user
  variable \<open>a\<close>, whatever the selector.
\<close>

theorem uservar_direct_access:
  assumes "a < of_nat ZF_USERVAR_COUNT"
  shows "peek a len s = Ret (1, uservar s (unat a)) s \<and>
         (zf_pop s = Ret len s1 \<and> zf_pop s1 = Ret a s2 \<longrightarrow>
            do_prim n cfg (prim_code PRIM_PEEK) inp s = zf_push (uservar s (unat a)) s2 \<and>
            do_prim n cfg (prim_code PRIM_LEN) inp s = zf_push 1 s2) \<and>
         (zf_pop s = Ret d2 t1 \<and> zf_pop t1 = Ret a t2 \<and> zf_pop t2 = Ret d1 t3 \<longrightarrow>
            do_prim n cfg (prim_code PRIM_POKE) inp s = Ret () (uservar_set (unat a) d1 t3) \<and>
            uservar (uservar_set (unat a) d1 t3) (unat a) = d1)"
proof -
  have p: "peek a len s = Ret (1, uservar s (unat a)) s" for len s
    using assms by (simp add: peek_def)
  have g: "do_prim n cfg (prim_code PRIM_PEEK) inp s = zf_push (uservar s (unat a)) s2 \<and>
        do_prim n cfg (prim_code PRIM_LEN) inp s = zf_push 1 s2"
    if "zf_pop s = Ret len s1" "zf_pop s1 = Ret a s2"
    using that zf_pop_uservar [OF that(1)] zf_pop_uservar [OF that(2)]
    by (simp add: do_prim_def p)
  have q: "do_prim n cfg (prim_code PRIM_POKE) inp s = Ret () (uservar_set (unat a) d1 t3) \<and>
        uservar (uservar_set (unat a) d1 t3) (unat a) = d1"
    if "zf_pop s = Ret d2 t1" "zf_pop t1 = Ret a t2" "zf_pop t2 = Ret d1 t3"
    using that assms by (simp add: do_prim_def uservar_set_same)
  from p g q show ?thesis by blast
qed

theorem uservar_direct_access_witness:
  "(3 :: u32) < of_nat ZF_USERVAR_COUNT \<and>
   peek 3 99 demo_stack3 = Ret (1, uservar demo_stack3 3) demo_stack3 \<and>
   do_prim 0 demo_config (prim_code PRIM_PEEK) NoInput demo_stack3
     = zf_push (uservar demo_stack3 3) (demo_stack3\<lparr>dsp := 1\<rparr>) \<and>
   do_prim 0 demo_config (prim_code PRIM_LEN) NoInput demo_stack3
     = zf_push 1 (demo_stack3\<lparr>dsp := 1\<rparr>) \<and>
   do_prim 0 demo_config (prim_code PRIM_POKE) NoInput demo_stack3
     = Ret () (uservar_set 3 77 (demo_stack3\<lparr>dsp := 0\<rparr>)) \<and>
   uservar (uservar_set 3 77 (demo_stack3\<lparr>dsp := 0\<rparr>)) 3 = 77"
proof -
  have a: "(3 :: u32) < of_nat ZF_USERVAR_COUNT"
    by (simp add: ZF_USERVAR_COUNT_def)
  have 1: "zf_pop demo_stack3 = Ret 99 (demo_stack3\<lparr>dsp := 2\<rparr>)"
    by (simp add: zf_pop_def demo_stack3_def ZF_DSTACK_SIZE_def zero_machine_def)
  have 2: "zf_pop (demo_stack3\<lparr>dsp := 2\<rparr>) = Ret 3 (demo_stack3\<lparr>dsp := 1\<rparr>)"
    by (simp add: zf_pop_def demo_stack3_def ZF_DSTACK_SIZE_def zero_machine_def)
  have 3: "zf_pop (demo_stack3\<lparr>dsp := 1\<rparr>) = Ret 77 (demo_stack3\<lparr>dsp := 0\<rparr>)"
    by (simp add: zf_pop_def demo_stack3_def ZF_DSTACK_SIZE_def zero_machine_def)
  from uservar_direct_access [OF a, of 99 demo_stack3 "demo_stack3\<lparr>dsp := 2\<rparr>"
      "demo_stack3\<lparr>dsp := 1\<rparr>" 0 demo_config NoInput 99 "demo_stack3\<lparr>dsp := 2\<rparr>"
      "demo_stack3\<lparr>dsp := 1\<rparr>" 77 "demo_stack3\<lparr>dsp := 0\<rparr>"] a 1 2 3
  show ?thesis by simp
qed

lemma load32_mem_write: "load32 (mem_write m a (le32 v)) a = v"
  using of_le32_le32 [of v]
  by (simp add: load32_def le32_def of_le32_def)

lemma dispatch_exec_local:
  assumes "wf_config cfg" and "command (packet s) = EXEC cfg"
    and "STR_MATCH (UID cfg) (uid (packet s))" and "options (packet s) = 1"
  shows "dispatch n cfg temp vdd s =
     andThen (eval_cmd n cfg (Ram (SRC_BUF cfg)) (s\<lparr>write_pos := 0\<rparr>)) (\<lambda>r s.
       Ret () (ack_up cfg (s\<lparr>packet := (packet s)\<lparr>options := r\<rparr>\<rparr>)))"
  using assms wf_config_neq [OF assms(1)]
  by (simp add: dispatch_def Let_def)

text \<open>
  Claim C6.  The primitive \<open>.\<close> pops one cell, stores it as the cell \<open>write_pos\<close> of
  \<open>WRITE_BUF\<close> and advances \<open>write_pos\<close> by one, back to 0 when it reaches \<open>DATA_SIZE\<close>.
  An EXEC packet for this node with options 1 that arrived whole with a matching
  checksum makes the loop call \<open>eval_cmd\<close> on \<open>SRC_BUF\<close> in a state whose \<open>write_pos\<close>
  is 0, and reply with the result.
\<close>

theorem emit_and_exec_reset:
  shows "(zf_pop s = Ret d1 s1 \<longrightarrow>
            (\<exists>s'. do_prim n cfg (prim_code PRIM_EMIT) inp s = Ret () s' \<and>
               load32 (sram s') (WRITE_BUF cfg + 4 * write_pos s) = d1 \<and>
               write_pos s' = (if write_pos s + 1 = of_nat (DATA_SIZE cfg) then 0 else write_pos s + 1) \<and>
               dsp s' = dsp s - 1)) \<and>
         (wf_config cfg \<and> packet_arrived cfg t \<and> checksum_ok cfg t \<and>
          command (parse_packet cfg (buffer t)) = EXEC cfg \<and>
          STR_MATCH (UID cfg) (uid (parse_packet cfg (buffer t))) \<and>
          options (parse_packet cfg (buffer t)) = 1 \<longrightarrow>
            (\<exists>t0. write_pos t0 = 0 \<and> sram t0 = sram t \<and> dict t0 = dict t \<and>
               main_loop n cfg t =
                 andThen (eval_cmd n cfg (Ram (SRC_BUF cfg)) t0) (\<lambda>r s.
                   Ret () (ack_up cfg (s\<lparr>packet := (packet s)\<lparr>options := r\<rparr>\<rparr>)))))"
proof -
  have e: "\<exists>s'. do_prim n cfg (prim_code PRIM_EMIT) inp s = Ret () s' \<and>
               load32 (sram s') (WRITE_BUF cfg + 4 * write_pos s) = d1 \<and>
               write_pos s' = (if write_pos s + 1 = of_nat (DATA_SIZE cfg) then 0 else write_pos s + 1) \<and>
               dsp s' = dsp s - 1"
    if "zf_pop s = Ret d1 s1"
  proof -
    from that have s1: "s1 = s\<lparr>dsp := dsp s - 1\<rparr>"
      by (auto simp: zf_pop_def Let_def split: if_splits)
    show ?thesis
      using that by (simp add: do_prim_def Let_def s1 load32_mem_write WRITE_BUF_MAX_def)
  qed
  have x: "\<exists>t0. write_pos t0 = 0 \<and> sram t0 = sram t \<and> dict t0 = dict t \<and>
               main_loop n cfg t =
                 andThen (eval_cmd n cfg (Ram (SRC_BUF cfg)) t0) (\<lambda>r s.
                   Ret () (ack_up cfg (s\<lparr>packet := (packet s)\<lparr>options := r\<rparr>\<rparr>)))"
    if "wf_config cfg" "packet_arrived cfg t" "checksum_ok cfg t"
      "command (parse_packet cfg (buffer t)) = EXEC cfg"
      "STR_MATCH (UID cfg) (uid (parse_packet cfg (buffer t)))"
      "options (parse_packet cfg (buffer t)) = 1"
  proof -
    have "main_loop n cfg t =
        andThen (eval_cmd n cfg (Ram (SRC_BUF cfg)) ((received cfg t)\<lparr>write_pos := 0\<rparr>)) (\<lambda>r s.
          Ret () (ack_up cfg (s\<lparr>packet := (packet s)\<lparr>options := r\<rparr>\<rparr>)))"
      unfolding main_loop_ok [OF that(2,3)]
      using that by (intro dispatch_exec_local) simp_all
    moreover have "write_pos ((received cfg t)\<lparr>write_pos := 0\<rparr>) = 0"
      "sram ((received cfg t)\<lparr>write_pos := 0\<rparr>) = sram t"
      "dict ((received cfg t)\<lparr>write_pos := 0\<rparr>) = dict t"
      by simp_all
    ultimately show ?thesis by blast
  qed
  from e x show ?thesis by blast
qed


lemma demo_exec_wf: "wf_packet demo_config demo_exec"
  by (simp add: wf_packet_def demo_config_def demo_exec_def UID_SIZE_def cstr_def)

theorem emit_and_exec_reset_witness:
  "zf_pop demo_emit = Ret 42 (demo_emit\<lparr>dsp := 0\<rparr>) \<and>
   (\<exists>s'. do_prim 0 demo_config (prim_code PRIM_EMIT) NoInput demo_emit = Ret () s' \<and>
      load32 (sram s') (WRITE_BUF demo_config + 4 * 30) = 42 \<and>
      write_pos s' = 0 \<and> dsp s' = 0) \<and>
   wf_config demo_config \<and> packet_arrived demo_config demo_exec_input \<and>
   checksum_ok demo_config demo_exec_input \<and>
   command (parse_packet demo_config (buffer demo_exec_input)) = EXEC demo_config \<and>
   STR_MATCH (UID demo_config) (uid (parse_packet demo_config (buffer demo_exec_input))) \<and>
   options (parse_packet demo_config (buffer demo_exec_input)) = 1 \<and>
   write_pos demo_exec_input = 5 \<and>
   (\<exists>t0. write_pos t0 = 0 \<and>
      main_loop 0 demo_config demo_exec_input =
        andThen (eval_cmd 0 demo_config (Ram (SRC_BUF demo_config)) t0) (\<lambda>r s.
          Ret () (ack_up demo_config (s\<lparr>packet := (packet s)\<lparr>options := r\<rparr>\<rparr>))))"
proof -
  have pop: "zf_pop demo_emit = Ret 42 (demo_emit\<lparr>dsp := 0\<rparr>)"
    by (simp add: zf_pop_def demo_emit_def ZF_DSTACK_SIZE_def zero_machine_def)
  have b: "buffer demo_exec_input = frame demo_config demo_exec"
    by (simp add: demo_exec_input_def demo_input_def)
  have a: "packet_arrived demo_config demo_exec_input"
    using demo_input_arrived [OF demo_exec_wf]
    by (simp add: packet_arrived_def demo_exec_input_def)
  have k: "checksum_ok demo_config demo_exec_input"
    using demo_exec_wf b by (rule frame_checksum_ok)
  have p: "parse_packet demo_config (buffer demo_exec_input) =
       demo_exec\<lparr>checksum := checksum (parse_packet demo_config (buffer demo_exec_input))\<rparr>"
    unfolding b by (simp add: frame_parse [OF demo_exec_wf])
  have c: "command (parse_packet demo_config (buffer demo_exec_input)) = EXEC demo_config"
    by (subst p) (simp add: demo_exec_def demo_config_def)
  have o: "options (parse_packet demo_config (buffer demo_exec_input)) = 1"
    by (subst p) (simp add: demo_exec_def)
  have u: "uid (parse_packet demo_config (buffer demo_exec_input)) = uid demo_exec"
    by (subst p) simp
  have "STR_MATCH (UID demo_config) (uid demo_exec)"
    by (simp add: UID_demo STR_MATCH_def demo_exec_def)
  then have m: "STR_MATCH (UID demo_config) (uid (parse_packet demo_config (buffer demo_exec_input)))"
    unfolding u .
  have w: "write_pos demo_exec_input = 5" "write_pos demo_emit = 30" "dsp demo_emit = 1"
    "DATA_SIZE demo_config = 31"
    by (simp_all add: demo_exec_input_def demo_emit_def demo_config_def)
  from emit_and_exec_reset [of demo_emit 42 "demo_emit\<lparr>dsp := 0\<rparr>" 0 demo_config NoInput
      demo_exec_input] pop wf_demo_config a k c m o
  have "(\<exists>s'. do_prim 0 demo_config (prim_code PRIM_EMIT) NoInput demo_emit = Ret () s' \<and>
      load32 (sram s') (WRITE_BUF demo_config + 4 * 30) = 42 \<and>
      write_pos s' = 0 \<and> dsp s' = 0) \<and>
    (\<exists>t0. write_pos t0 = 0 \<and>
      main_loop 0 demo_config demo_exec_input =
        andThen (eval_cmd 0 demo_config (Ram (SRC_BUF demo_config)) t0) (\<lambda>r s.
          Ret () (ack_up demo_config (s\<lparr>packet := (packet s)\<lparr>options := r\<rparr>\<rparr>))))"
    by (auto simp: w)
  with pop wf_demo_config a k c m o w(1) show ?thesis by blast
qed

section \<open>The VM: aborts, properties\<close>

lemma aw_andThen:
  "aborts_within A m \<Longrightarrow> (\<And>v s. aborts_within A (f v s)) \<Longrightarrow> aborts_within A (andThen m f)"
  by (cases m) (simp_all add: andThen_def)

lemma aw_stack [simp]:
  "aborts_within A (zf_push v s)" "aborts_within A (zf_pop s)" "aborts_within A (zf_pick k s)"
  "aborts_within A (zf_pushr v s)" "aborts_within A (zf_popr s)" "aborts_within A (zf_pickr k s)"
  by (simp_all add: zf_push_def zf_pop_def zf_pick_def zf_pushr_def zf_popr_def zf_pickr_def Let_def)

lemma aw_bytes [simp]:
  "aborts_within A (dict_put_bytes a bs s)" "aborts_within A (dict_get_bytes a k s)"
  by (simp_all add: dict_put_bytes_def dict_get_bytes_def split: option.splits)

lemma aw_abort [simp]:
  "aw (zf_abort ZF_ABORT_INTERNAL_ERROR s)" "aw (zf_abort ZF_ABORT_NOT_A_WORD s)"
  "aw (zf_abort ZF_ABORT_INVALID_SIZE s)" "aw (zf_abort ZF_ABORT_DIVISION_BY_ZERO s)"
  by (simp_all add: zf_abort_def unchecked_reasons_def)

lemma aw_put_cell [simp]: "aw (dict_put_cell_typed a v sz s)"
  unfolding dict_put_cell_typed_def Let_def
  by (auto intro!: aw_andThen)

lemma aw_get_cell [simp]: "aw (dict_get_cell_typed a sz s)"
  unfolding dict_get_cell_typed_def
  by (auto intro!: aw_andThen)

lemma aw_cell [simp]: "aw (dict_put_cell a v s)" "aw (dict_get_cell a s)"
  by (simp_all add: dict_put_cell_def dict_get_cell_def)

lemma aw_add [simp]:
  "aw (dict_add_cell_typed v sz s)" "aw (dict_add_cell v s)" "aw (dict_add_op op s)"
  "aw (dict_add_lit v s)" "aw (dict_add_str str s)"
  by (auto simp: dict_add_cell_typed_def dict_add_cell_def dict_add_op_def dict_add_lit_def
      dict_add_str_def intro!: aw_andThen)

lemma aw_create [simp]: "aw (create name flags s)"
  by (auto simp: create_def Let_def intro!: aw_andThen)

lemma aw_make_immediate [simp]: "aw (make_immediate s)"
  by (auto simp: make_immediate_def intro!: aw_andThen)

lemma aw_find_word_loop [simp]: "aw (find_word_loop n name w s)"
proof (induction n arbitrary: w s)
  case 0
  show ?case by simp
next
  case (Suc n)
  show ?case
    by (auto simp: Let_def Suc.IH intro!: aw_andThen)
qed

lemma aw_find_word [simp]: "aw (find_word n name s)"
  by (simp add: find_word_def)

lemma aw_peek [simp]: "aw (peek a len s)"
  by (simp add: peek_def)


lemma aw_do_prim [simp]: "aw (do_prim n cfg op inp s)"
proof (cases "prim_of op")
  case None
  then show ?thesis by (simp add: do_prim_def)
next
  case (Some p)
  then show ?thesis
    by (cases p; cases inp)
      (auto simp: do_prim_def Let_def intro!: aw_andThen split: option.splits)
qed

lemma aw_run [simp]: "aw (run n cfg inp s)"
proof (induction n arbitrary: inp s)
  case 0
  show ?case by simp
next
  case (Suc n)
  show ?case
    by (auto simp: Let_def Suc.IH intro!: aw_andThen)
qed

lemma aw_execute [simp]: "aw (execute n cfg a s)"
  by (auto simp: execute_def intro!: aw_andThen)

lemma aw_parse_num [simp]: "aw (zf_host_parse_num buf s)"
  by (simp add: zf_host_parse_num_def split: option.splits)

lemma aw_handle_word [simp]: "aw (handle_word n cfg buf s)"
  by (auto simp: handle_word_def Let_def intro!: aw_andThen split: option.splits)

lemma aw_handle_char [simp]: "aw (handle_char n cfg c s)"
  by (simp add: handle_char_def)

lemma aw_zf_eval_loop [simp]: "aw (zf_eval_loop n cfg buf s)"
proof (induction n arbitrary: buf s)
  case 0
  show ?case by simp
next
  case (Suc n)
  show ?case
    by (auto simp: Suc.IH intro!: aw_andThen)
qed

lemma zf_eval_result:
  assumes "zf_eval n cfg buf s = Ret r s'"
  shows "r = ZF_OK \<or> r \<in> unchecked_reasons"
proof (cases "zf_eval_loop n cfg buf s")
  case (Abort e t)
  with aw_zf_eval_loop [of n cfg buf s] have "e \<in> unchecked_reasons" by simp
  with Abort assms show ?thesis by (simp add: zf_eval_def)
qed (use assms in \<open>simp_all add: zf_eval_def\<close>)

text \<open>
  Claim C9.  With \<open>ZF_ENABLE_BOUNDARY_CHECKS\<close> set to 0 no stack operation and no
  dictionary byte accessor checks a bound, so for every program, every state and every
  number of steps \<open>zf_eval\<close> returns none of the reasons DSTACK_UNDERRUN,
  DSTACK_OVERRUN, RSTACK_UNDERRUN, RSTACK_OVERRUN and OUTSIDE_MEM.  A pop from an empty
  stack, a push onto a full one and a dictionary access past the last byte index the
  array out of its bounds; none of them aborts.
\<close>

theorem no_bounds_aborts:
  "zf_eval n cfg buf s \<noteq> Ret ZF_ABORT_DSTACK_UNDERRUN s' \<and>
   zf_eval n cfg buf s \<noteq> Ret ZF_ABORT_DSTACK_OVERRUN s' \<and>
   zf_eval n cfg buf s \<noteq> Ret ZF_ABORT_RSTACK_UNDERRUN s' \<and>
   zf_eval n cfg buf s \<noteq> Ret ZF_ABORT_RSTACK_OVERRUN s' \<and>
   zf_eval n cfg buf s \<noteq> Ret ZF_ABORT_OUTSIDE_MEM s' \<and>
   zf_pop (s\<lparr>dsp := 0\<rparr>) = Fault \<and> zf_popr (s\<lparr>rsp := 0\<rparr>) = Fault \<and>
   zf_push v (s\<lparr>dsp := of_nat ZF_DSTACK_SIZE\<rparr>) = Fault \<and>
   zf_pushr v (s\<lparr>rsp := of_nat ZF_RSTACK_SIZE\<rparr>) = Fault \<and>
   dict_get_bytes (of_nat ZF_DICT_SIZE) 1 s = Fault \<and>
   dict_put_bytes (of_nat ZF_DICT_SIZE) [b] s = Fault"
proof -
  have e: "r \<noteq> ZF_OK \<Longrightarrow> r \<notin> unchecked_reasons \<Longrightarrow> zf_eval n cfg buf s \<noteq> Ret r s'" for r
    using zf_eval_result [of n cfg buf s r s'] by blast
  have u: "unat (- 1 :: u32) = 4294967295"
    by (simp add: unsigned_minus_1_eq_mask mask_eq_exp_minus_1)
  have p: "zf_pop (s\<lparr>dsp := 0\<rparr>) = Fault" "zf_popr (s\<lparr>rsp := 0\<rparr>) = Fault"
    by (simp_all add: zf_pop_def zf_popr_def Let_def u ZF_DSTACK_SIZE_def ZF_RSTACK_SIZE_def)
  have q: "zf_push v (s\<lparr>dsp := of_nat ZF_DSTACK_SIZE\<rparr>) = Fault"
    "zf_pushr v (s\<lparr>rsp := of_nat ZF_RSTACK_SIZE\<rparr>) = Fault"
    by (simp_all add: zf_push_def zf_pushr_def ZF_DSTACK_SIZE_def ZF_RSTACK_SIZE_def)
  have d: "dict_get_bytes (of_nat ZF_DICT_SIZE) 1 s = Fault"
    "dict_put_bytes (of_nat ZF_DICT_SIZE) [b] s = Fault"
    by (simp_all add: dict_get_bytes_def dict_put_bytes_def ZF_DICT_SIZE_def)
  have f: "zf_eval n cfg buf s \<noteq> Ret ZF_ABORT_DSTACK_UNDERRUN s'"
    "zf_eval n cfg buf s \<noteq> Ret ZF_ABORT_DSTACK_OVERRUN s'"
    "zf_eval n cfg buf s \<noteq> Ret ZF_ABORT_RSTACK_UNDERRUN s'"
    "zf_eval n cfg buf s \<noteq> Ret ZF_ABORT_RSTACK_OVERRUN s'"
    "zf_eval n cfg buf s \<noteq> Ret ZF_ABORT_OUTSIDE_MEM s'"
    by (rule e; simp add: unchecked_reasons_def)+
  from f p q d show ?thesis
    by blast
qed

section \<open>The VM: evaluation of concrete programs\<close>

lemma fuel_numeral:
  "run (numeral k) cfg inp s = run (Suc (pred_numeral k)) cfg inp s"
  "find_word_loop (numeral k) name w s = find_word_loop (Suc (pred_numeral k)) name w s"
  "zf_eval_loop (numeral k) cfg buf s = zf_eval_loop (Suc (pred_numeral k)) cfg buf s"
  "get_bytes d a (numeral k) = get_bytes d a (Suc (pred_numeral k))"
  by (simp_all only: numeral_eq_Suc)

lemmas run_numeral = trans [OF fuel_numeral(1) run.simps(2)]
lemmas find_word_loop_numeral = trans [OF fuel_numeral(2) find_word_loop.simps(2)]
lemmas zf_eval_loop_numeral = trans [OF fuel_numeral(3) zf_eval_loop.simps(2)]
lemmas get_bytes_numeral = trans [OF fuel_numeral(4) get_bytes.simps(2)]
lemmas fuel_simps = run_numeral find_word_loop_numeral zf_eval_loop_numeral get_bytes_numeral

lemma andThen_weak_cong: "m = m' \<Longrightarrow> andThen m f = andThen m' f"
  by simp

lemmas init_defs = zf_init_def uservar_set_def uservar_def HERE_def LATEST_def zero_machine_def Let_def
   ZF_USERVAR_HERE_def ZF_USERVAR_LATEST_def ZF_USERVAR_TRACE_def ZF_USERVAR_COMPILING_def ZF_USERVAR_COUNT_def of_le32_def

lemmas dict_defs = dict_put_cell_typed_def dict_put_bytes_def ZF_DICT_SIZE_def
  dict_add_cell_def dict_add_cell_typed_def dict_add_op_def dict_add_str_def dict_add_lit_def
  dict_get_cell_def dict_get_cell_typed_def dict_get_bytes_def dict_put_cell_def
  create_def add_prim_def make_immediate_def cstr_def le32_def ZF_FLAG_PRIM_def PRIM_EXIT_code_def

lemmas eval_defs = COMPILING_def POSTPONE_def ZF_USERVAR_POSTPONE_def
  ZF_DSTACK_SIZE_def ZF_RSTACK_SIZE_def ZF_FLAG_IMMEDIATE_def ZF_FLAG_LEN_def PRIM_LIT_code_def
  zf_push_def zf_pop_def zf_pushr_def zf_popr_def zf_abort_def
  find_word_def handle_word_def handle_char_def execute_def isspace_def
  zf_host_parse_num_def scan_li_def digit_val_def do_prim_def prim_of_def prim_table_def PRIM_COUNT_def

lemma andThen_stop [simp]:
  "andThen (Abort r s) f = Abort r s" "andThen Fault f = Fault" "andThen OutOfFuel f = OutOfFuel"
  by (simp_all add: andThen_def)

lemmas vm_eval = zf_eval_def div_machine_def init_defs dict_defs eval_defs fuel_simps

theorem no_bounds_aborts_witness:
  "zf_eval 12 demo_config (Rom (cstr ''/'')) div_machine = Fault \<and>
   zf_eval 12 demo_config (Rom (cstr ''/'')) div_machine \<noteq> Ret ZF_ABORT_DSTACK_UNDERRUN zero_machine \<and>
   zf_pop (div_machine\<lparr>dsp := 0\<rparr>) = Fault"
proof -
  have "zf_eval 12 demo_config (Rom (cstr ''/'')) div_machine = Fault"
    by (simp add: vm_eval unsigned_minus_1_eq_mask mask_eq_exp_minus_1 cong: andThen_weak_cong)
  with no_bounds_aborts [of 12 demo_config "Rom (cstr ''/'')" div_machine zero_machine]
  show ?thesis by simp
qed

lemma aborts_not_ok:
  assumes "zf_eval_loop n cfg buf s = Abort r s1"
  shows "r \<noteq> ZF_OK"
  using aw_zf_eval_loop [of n cfg buf s] assms by (auto simp: unchecked_reasons_def)

lemma uservar_set_zero: "uservar (uservar_set i 0 s) i = 0"
  by (rule uservar_set_same)

text \<open>
  Claim C5.  When the evaluation of a source string aborts, \<open>zf_eval\<close> returns the
  reason, which is not \<open>ZF_OK\<close>, in the state of the abort with \<open>COMPILING\<close>, the
  data stack pointer and the return stack pointer set to 0; so whenever \<open>zf_eval\<close>
  returns a reason other than \<open>ZF_OK\<close> these three are 0, and the next \<open>zf_eval\<close>
  starts from them.  The primitive \<open>/\<close> aborts with DIVISION_BY_ZERO when the cell
  it pops first is 0.
\<close>

theorem abort_unwinds_to_eval:
  "(zf_eval_loop n cfg buf s = Abort r s1 \<longrightarrow>
      r \<noteq> ZF_OK \<and>
      zf_eval n cfg buf s = Ret r ((uservar_set ZF_USERVAR_COMPILING 0 s1)\<lparr>rsp := 0, dsp := 0\<rparr>)) \<and>
   (zf_eval n cfg buf s = Ret r s' \<and> r \<noteq> ZF_OK \<longrightarrow>
      COMPILING s' = 0 \<and> dsp s' = 0 \<and> rsp s' = 0) \<and>
   (zf_pop s = Ret 0 s2 \<longrightarrow>
      do_prim n cfg (prim_code PRIM_DIV) inp s = Abort ZF_ABORT_DIVISION_BY_ZERO s2)"
proof -
  have a: "r \<noteq> ZF_OK \<and>
      zf_eval n cfg buf s = Ret r ((uservar_set ZF_USERVAR_COMPILING 0 s1)\<lparr>rsp := 0, dsp := 0\<rparr>)"
    if "zf_eval_loop n cfg buf s = Abort r s1"
    using that aborts_not_ok [OF that] by (simp add: zf_eval_def)
  have b: "COMPILING s' = 0 \<and> dsp s' = 0 \<and> rsp s' = 0"
    if "zf_eval n cfg buf s = Ret r s'" "r \<noteq> ZF_OK"
  proof (cases "zf_eval_loop n cfg buf s")
    case (Abort e t)
    with that have "s' = (uservar_set ZF_USERVAR_COMPILING 0 t)\<lparr>rsp := 0, dsp := 0\<rparr>"
      by (simp add: zf_eval_def)
    then show ?thesis
      using uservar_set_same [of ZF_USERVAR_COMPILING 0 t]
      by (simp add: COMPILING_def uservar_def)
  qed (use that in \<open>simp_all add: zf_eval_def\<close>)
  have c: "do_prim n cfg (prim_code PRIM_DIV) inp s = Abort ZF_ABORT_DIVISION_BY_ZERO s2"
    if "zf_pop s = Ret 0 s2"
    using that by (simp add: do_prim_def zf_abort_def)
  from a b c show ?thesis by blast
qed

theorem abort_unwinds_to_eval_witness:
  "\<exists>s' s''. zf_eval 12 demo_config (Rom (cstr ''1 0 /'')) div_machine
               = Ret ZF_ABORT_DIVISION_BY_ZERO s' \<and>
     ZF_ABORT_DIVISION_BY_ZERO \<noteq> ZF_OK \<and>
     COMPILING s' = 0 \<and> dsp s' = 0 \<and> rsp s' = 0 \<and>
     zf_eval 12 demo_config (Rom (cstr ''6 3 /'')) s' = Ret ZF_OK s'' \<and>
     dsp s'' = 1 \<and> dstack s'' 0 = 2"
proof -
  have "\<exists>s' s''. zf_eval 12 demo_config (Rom (cstr ''1 0 /'')) div_machine
               = Ret ZF_ABORT_DIVISION_BY_ZERO s' \<and>
     zf_eval 12 demo_config (Rom (cstr ''6 3 /'')) s' = Ret ZF_OK s'' \<and>
     dsp s'' = 1 \<and> dstack s'' 0 = 2"
    by (simp add: vm_eval cong: andThen_weak_cong)
  then obtain s' s'' where
    e: "zf_eval 12 demo_config (Rom (cstr ''1 0 /'')) div_machine = Ret ZF_ABORT_DIVISION_BY_ZERO s'"
    and f: "zf_eval 12 demo_config (Rom (cstr ''6 3 /'')) s' = Ret ZF_OK s''"
      "dsp s'' = 1" "dstack s'' 0 = 2"
    by blast
  from abort_unwinds_to_eval [of 12 demo_config "Rom (cstr ''1 0 /'')" div_machine
      ZF_ABORT_DIVISION_BY_ZERO s' s'] e
  have "COMPILING s' = 0 \<and> dsp s' = 0 \<and> rsp s' = 0"
    by simp
  with e f show ?thesis by auto
qed

end
